theory Spec2Isabelle
  imports Main "HOL-Library.Sublist"
begin

section \<open>types.ts: log levels\<close>

text \<open>
  \<^verbatim>\<open>export enum LogLevel { ERROR = 0, WARN = 1, INFO = 2, DEBUG = 3, TRACE = 4 }\<close>
  The enum is a datatype; \<open>level_num\<close> is the number each member stands for, which is
  what the comparison \<^verbatim>\<open>level > this.level\<close> of \<^verbatim>\<open>Logger.log\<close> reads.
\<close>

datatype LogLevel = ERROR | WARN | INFO | DEBUG | TRACE

fun level_num :: "LogLevel \<Rightarrow> nat" where
  "level_num ERROR = 0"
| "level_num WARN = 1"
| "level_num INFO = 2"
| "level_num DEBUG = 3"
| "level_num TRACE = 4"

text \<open>\<^verbatim>\<open>LOG_LEVEL_NAMES: Record<LogLevel, string>\<close>, the display name of each level.\<close>

fun LOG_LEVEL_NAMES :: "LogLevel \<Rightarrow> string" where
  "LOG_LEVEL_NAMES ERROR = ''ERROR''"
| "LOG_LEVEL_NAMES WARN = ''WARN''"
| "LOG_LEVEL_NAMES INFO = ''INFO''"
| "LOG_LEVEL_NAMES DEBUG = ''DEBUG''"
| "LOG_LEVEL_NAMES TRACE = ''TRACE''"

subsection \<open>Strings\<close>

text \<open>
  The texts that the library itself writes (level names, messages, contexts, formatter
  output) are modelled by \<open>string\<close>, one \<open>char\<close> for each code unit in 0..255. The
  argument of \<^verbatim>\<open>parseLogLevel\<close> comes from outside, so it is modelled as the program
  receives it: a JavaScript string is the list of its UTF-16 code units, and \<open>units\<close>
  reads a \<open>string\<close> as such a list.
\<close>

type_synonym jsstring = "nat list"

definition units :: "string \<Rightarrow> jsstring" where
  "units s = map of_char s"

text \<open>
  \<^verbatim>\<open>String.prototype.toUpperCase\<close> maps each code point by the locale-independent
  upper-case mapping of Unicode, which may yield several code units. \<open>toUpperCase_unit\<close>
  is that mapping on the code units 0..255, on U+0131 (dotless i, which becomes \<^verbatim>\<open>I\<close>)
  and on U+017F (long s, which becomes \<^verbatim>\<open>S\<close>): the letters \<^verbatim>\<open>a\<close>..\<^verbatim>\<open>z\<close> and the Latin-1
  letters U+00E0..U+00FE (but not the division sign U+00F7) move 32 down, the micro sign
  U+00B5 becomes U+039C, the sharp s U+00DF becomes \<^verbatim>\<open>SS\<close>, U+00FF becomes U+0178, and
  the other code units of this range stay. On a string with any code unit outside this
  range the result of the built-in is the parameter \<open>elsewhere\<close>.
\<close>

definition tabled :: "nat \<Rightarrow> bool" where
  "tabled c \<longleftrightarrow> c < 256 \<or> c = 305 \<or> c = 383"

definition toUpperCase_unit :: "nat \<Rightarrow> jsstring" where
  "toUpperCase_unit c =
     (if 97 \<le> c \<and> c \<le> 122 then [c - 32]
      else if c = 181 then [924]
      else if c = 223 then [83, 83]
      else if 224 \<le> c \<and> c \<le> 254 \<and> c \<noteq> 247 then [c - 32]
      else if c = 255 then [376]
      else if c = 305 then [73]
      else if c = 383 then [83]
      else [c])"

definition toUpperCase :: "(jsstring \<Rightarrow> jsstring) \<Rightarrow> jsstring \<Rightarrow> jsstring" where
  "toUpperCase elsewhere s =
     (if list_all tabled s then concat (map toUpperCase_unit s) else elsewhere s)"

subsection \<open>parseLogLevel\<close>

text \<open>
  \<^verbatim>\<open>Object.entries(LOG_LEVEL_NAMES)\<close>: the enum members are the integer keys 0..4, which
  \<^verbatim>\<open>Object.entries\<close> lists in ascending order, each key as its decimal string.
\<close>

fun level_key :: "LogLevel \<Rightarrow> string" where
  "level_key ERROR = ''0''"
| "level_key WARN = ''1''"
| "level_key INFO = ''2''"
| "level_key DEBUG = ''3''"
| "level_key TRACE = ''4''"

definition Object_entries :: "(LogLevel \<Rightarrow> string) \<Rightarrow> (string \<times> string) list" where
  "Object_entries names = map (\<lambda>l. (level_key l, names l)) [ERROR, WARN, INFO, DEBUG, TRACE]"

text \<open>
  \<^verbatim>\<open>Number(key)\<close> for the keys met here: a string of decimal digits is its value and the
  empty string is 0. Other spellings of a number are not modelled; they and the strings
  that are \<^verbatim>\<open>NaN\<close> give \<open>None\<close>.
\<close>

definition digit_val :: "char \<Rightarrow> nat option" where
  "digit_val c =
     (let n = (of_char c :: nat) in if 48 \<le> n \<and> n \<le> 57 then Some (n - 48) else None)"

fun Number_digits :: "nat \<Rightarrow> string \<Rightarrow> nat option" where
  "Number_digits acc [] = Some acc"
| "Number_digits acc (c # cs) =
     (case digit_val c of None \<Rightarrow> None | Some d \<Rightarrow> Number_digits (10 * acc + d) cs)"

definition Number :: "string \<Rightarrow> nat option" where
  "Number s = (if s = [] then Some 0 else Number_digits 0 s)"

text \<open>
  The cast \<^verbatim>\<open>Number(entry[0]) as LogLevel\<close>: the number read as an enum member. A number
  that is no member has no counterpart in the datatype.
\<close>

definition as_LogLevel :: "nat option \<Rightarrow> LogLevel option" where
  "as_LogLevel n =
     (case n of
        None \<Rightarrow> None
      | Some k \<Rightarrow> List.find (\<lambda>l. level_num l = k) [ERROR, WARN, INFO, DEBUG, TRACE])"

text \<open>
  \<^verbatim>\<open>
  export function parseLogLevel(level: string): LogLevel | null {
    const upper = level.toUpperCase();
    const entry = Object.entries(LOG_LEVEL_NAMES).find(([, name]) => name === upper);
    return entry ? (Number(entry[0]) as LogLevel) : null;
  }
  \<close>
  \<open>None\<close> is \<^verbatim>\<open>null\<close>; \<open>elsewhere\<close> is the parameter of \<open>toUpperCase\<close>.
\<close>

definition parseLogLevel :: "(jsstring \<Rightarrow> jsstring) \<Rightarrow> jsstring \<Rightarrow> LogLevel option" where
  "parseLogLevel elsewhere level =
     (let upper = toUpperCase elsewhere level;
          entry = List.find (\<lambda>(k, name). units name = upper) (Object_entries LOG_LEVEL_NAMES)
      in case entry of
           None \<Rightarrow> None
         | Some en \<Rightarrow> as_LogLevel (Number (fst en)))"

text \<open>
  A case variant of an upper-case name: the same length, and at each position either the
  letter of the name or the code unit 32 above it (its lower-case letter). A spelling of
  the name allows, besides, U+0131 where the name has \<^verbatim>\<open>I\<close>.
\<close>

definition case_variant :: "jsstring \<Rightarrow> string \<Rightarrow> bool" where
  "case_variant s name =
     list_all2 (\<lambda>c n. c = of_char n \<or> c = of_char n + 32) s name"

definition spelling :: "jsstring \<Rightarrow> string \<Rightarrow> bool" where
  "spelling s name =
     list_all2 (\<lambda>c n. c = of_char n \<or> c = of_char n + 32 \<or> (n = CHR ''I'' \<and> c = 305)) s name"

section \<open>types.ts: log entries\<close>

text \<open>
  Values thrown by the code or by the host: \<^verbatim>\<open>TypeError\<close> (calling what is not a
  function), \<^verbatim>\<open>RangeError\<close> (\<^verbatim>\<open>toISOString\<close> of an invalid date), and whatever user
  code throws.
\<close>

datatype exn = TypeError | RangeError | Thrown string

text \<open>
  A \<^verbatim>\<open>Date\<close> is represented by what \<^verbatim>\<open>toISOString()\<close> yields for it: a valid date by
  its ISO-8601 text, the invalid date by the \<^verbatim>\<open>RangeError\<close> the method throws.
\<close>

datatype Date = ValidDate string | InvalidDate

fun toISOString :: "Date \<Rightarrow> exn + string" where
  "toISOString (ValidDate s) = Inr s"
| "toISOString InvalidDate = Inl RangeError"

text \<open>
  Structured values (\<^verbatim>\<open>unknown\<close> in \<^verbatim>\<open>Record<string, unknown>\<close>) are trees of plain
  data. A plain object is the list of its own enumerable properties, in enumeration
  order, with distinct keys. A number is carried by its \<^verbatim>\<open>Number::toString\<close> text
  (\<^verbatim>\<open>NaN\<close>, \<^verbatim>\<open>Infinity\<close> and \<^verbatim>\<open>-Infinity\<close> for the numbers that are not finite).
\<close>

datatype json =
    JUndefined
  | JNull
  | JBool bool
  | JNumber string
  | JString string
  | JArray "json list"
  | JObject "(string \<times> json) list"

text \<open>An \<^verbatim>\<open>Error\<close> object: \<^verbatim>\<open>name\<close>, \<^verbatim>\<open>message\<close> and the optional \<^verbatim>\<open>stack\<close>.\<close>

record JsError =
  err_name :: string
  err_message :: string
  err_stack :: "string option"

text \<open>
  \<^verbatim>\<open>interface LogEntry { level; message; context?; timestamp; data?; error? }\<close>
  An optional property that is absent (or \<^verbatim>\<open>undefined\<close>) is \<open>None\<close>.
\<close>

record LogEntry =
  e_level :: LogLevel
  e_message :: string
  e_context :: "string option"
  e_timestamp :: Date
  e_data :: "(string \<times> json) list option"
  e_error :: "JsError option"

section \<open>JSON.stringify\<close>

definition dquote :: char where "dquote = CHR 0x22"
definition backslash :: char where "backslash = CHR 0x5C"
definition newline :: char where "newline = CHR 0x0A"

definition hex_digit :: "nat \<Rightarrow> char" where
  "hex_digit n = (if n < 10 then char_of (48 + n) else char_of (87 + n))"

text \<open>\<^verbatim>\<open>QuoteJSONString\<close>: the escapes of ECMA-262 for the modelled code units.\<close>

definition quote_unit :: "char \<Rightarrow> string" where
  "quote_unit c =
     (let n = (of_char c :: nat) in
      if n = 8 then [backslash, CHR ''b'']
      else if n = 9 then [backslash, CHR ''t'']
      else if n = 10 then [backslash, CHR ''n'']
      else if n = 12 then [backslash, CHR ''f'']
      else if n = 13 then [backslash, CHR ''r'']
      else if c = dquote then [backslash, dquote]
      else if c = backslash then [backslash, backslash]
      else if n < 32 then [backslash, CHR ''u'', CHR ''0'', CHR ''0'',
                           hex_digit (n div 16), hex_digit (n mod 16)]
      else [c])"

definition QuoteJSONString :: "string \<Rightarrow> string" where
  "QuoteJSONString s = [dquote] @ concat (map quote_unit s) @ [dquote]"

fun join :: "string \<Rightarrow> string list \<Rightarrow> string" where
  "join sep [] = []"
| "join sep [x] = x"
| "join sep (x # y # ys) = x @ sep @ join sep (y # ys)"

text \<open>
  \<^verbatim>\<open>SerializeJSONProperty\<close>: \<open>None\<close> is the result \<^verbatim>\<open>undefined\<close>. A number that is
  not finite is written \<^verbatim>\<open>null\<close>. In an array an
  \<^verbatim>\<open>undefined\<close> element is written \<^verbatim>\<open>null\<close>; in an object a property whose value is
  \<^verbatim>\<open>undefined\<close> is left out.
\<close>

fun serialize :: "json \<Rightarrow> string option"
  and serialize_elements :: "json list \<Rightarrow> string list"
  and serialize_properties :: "(string \<times> json) list \<Rightarrow> string list"
where
  "serialize JUndefined = None"
| "serialize JNull = Some ''null''"
| "serialize (JBool b) = Some (if b then ''true'' else ''false'')"
| "serialize (JNumber s) =
     Some (if s = ''NaN'' \<or> s = ''Infinity'' \<or> s = ''-Infinity'' then ''null'' else s)"
| "serialize (JString s) = Some (QuoteJSONString s)"
| "serialize (JArray xs) = Some (''['' @ join '','' (serialize_elements xs) @ '']'')"
| "serialize (JObject ps) = Some (''{'' @ join '','' (serialize_properties ps) @ ''}'')"
| "serialize_elements [] = []"
| "serialize_elements (x # xs) =
     (case serialize x of None \<Rightarrow> ''null'' | Some s \<Rightarrow> s) # serialize_elements xs"
| "serialize_properties [] = []"
| "serialize_properties (p # ps) =
     (case serialize (snd p) of
        None \<Rightarrow> serialize_properties ps
      | Some s \<Rightarrow> (QuoteJSONString (fst p) @ '':'' @ s) # serialize_properties ps)"

text \<open>\<^verbatim>\<open>JSON.stringify\<close> applied to a plain object, which always yields a string.\<close>

definition JSON_stringify :: "(string \<times> json) list \<Rightarrow> string" where
  "JSON_stringify ps = ''{'' @ join '','' (serialize_properties ps) @ ''}''"

text \<open>\<^verbatim>\<open>Object.keys\<close> of a plain object.\<close>

definition Object_keys :: "(string \<times> json) list \<Rightarrow> string list" where
  "Object_keys ps = map fst ps"

section \<open>formatters.ts\<close>

text \<open>
  Truthiness of an optional string, as in \<^verbatim>\<open>entry.context ? ... : ...\<close>: \<^verbatim>\<open>undefined\<close>
  and the empty string are falsy.
\<close>

fun truthy :: "string option \<Rightarrow> bool" where
  "truthy None = False"
| "truthy (Some s) = (s \<noteq> [])"

text \<open>
  \<^verbatim>\<open>
  const ctx = entry.context ? `[${entry.context}] ` : "";
  \<close>
\<close>

definition context_segment :: "LogEntry \<Rightarrow> string" where
  "context_segment entry =
     (case e_context entry of
        None \<Rightarrow> []
      | Some c \<Rightarrow> if truthy (Some c) then ''['' @ c @ ''] '' else [])"

text \<open>
  The two suffixes shared by the text formatters:
  \<^verbatim>\<open>
  if (entry.data && Object.keys(entry.data).length > 0) {
    msg += ` ${JSON.stringify(entry.data)}`;
  }
  if (entry.error) {
    msg += `\n${entry.error.stack ?? entry.error.message}`;
  }
  \<close>
\<close>

definition append_data :: "LogEntry \<Rightarrow> string \<Rightarrow> string" where
  "append_data entry msg =
     (case e_data entry of
        None \<Rightarrow> msg
      | Some d \<Rightarrow> if length (Object_keys d) > 0 then msg @ '' '' @ JSON_stringify d else msg)"

definition append_error :: "LogEntry \<Rightarrow> string \<Rightarrow> string" where
  "append_error entry msg =
     (case e_error entry of
        None \<Rightarrow> msg
      | Some er \<Rightarrow>
          msg @ [newline] @ (case err_stack er of Some st \<Rightarrow> st | None \<Rightarrow> err_message er))"

text \<open>
  \<^verbatim>\<open>SimpleFormatter.format\<close>:
  \<^verbatim>\<open>
  const level = LOG_LEVEL_NAMES[entry.level];
  const ctx = entry.context ? `[${entry.context}] ` : "";
  let msg = `[${level}] ${ctx}${entry.message}`;
  ... data suffix, error suffix ...
  return msg;
  \<close>
\<close>

definition SimpleFormatter_format :: "LogEntry \<Rightarrow> string" where
  "SimpleFormatter_format entry =
     (let level = LOG_LEVEL_NAMES (e_level entry);
          ctx = context_segment entry;
          msg = ''['' @ level @ ''] '' @ ctx @ e_message entry
      in append_error entry (append_data entry msg))"

text \<open>
  \<^verbatim>\<open>TimestampedFormatter.format\<close>: as above with
  \<^verbatim>\<open>const time = entry.timestamp.toISOString();\<close> and
  \<^verbatim>\<open>let msg = `[${time}] [${level}] ${ctx}${entry.message}`;\<close>
\<close>

definition TimestampedFormatter_format :: "LogEntry \<Rightarrow> exn + string" where
  "TimestampedFormatter_format entry =
     (let level = LOG_LEVEL_NAMES (e_level entry) in
      case toISOString (e_timestamp entry) of
        Inl x \<Rightarrow> Inl x
      | Inr time \<Rightarrow>
          (let ctx = context_segment entry;
               msg = ''['' @ time @ ''] ['' @ level @ ''] '' @ ctx @ e_message entry
           in Inr (append_error entry (append_data entry msg))))"

text \<open>
  \<^verbatim>\<open>JsonFormatter.format\<close>. \<open>JsonFormatter_obj\<close> is the object \<^verbatim>\<open>obj\<close> built before
  \<^verbatim>\<open>JSON.stringify(obj)\<close>:
  \<^verbatim>\<open>
  const obj = { level: LOG_LEVEL_NAMES[entry.level], message: entry.message,
                timestamp: entry.timestamp.toISOString() };
  if (entry.context) { obj["context"] = entry.context; }
  if (entry.data) { obj["data"] = entry.data; }
  if (entry.error) {
    obj["error"] = { name: entry.error.name, message: entry.error.message,
                     stack: entry.error.stack };
  }
  return JSON.stringify(obj);
  \<close>
\<close>

definition error_object :: "JsError \<Rightarrow> json" where
  "error_object er =
     JObject [(''name'', JString (err_name er)),
              (''message'', JString (err_message er)),
              (''stack'', (case err_stack er of None \<Rightarrow> JUndefined | Some st \<Rightarrow> JString st))]"

definition JsonFormatter_obj :: "LogEntry \<Rightarrow> exn + (string \<times> json) list" where
  "JsonFormatter_obj entry =
     (case toISOString (e_timestamp entry) of
        Inl x \<Rightarrow> Inl x
      | Inr time \<Rightarrow>
          (let obj = [(''level'', JString (LOG_LEVEL_NAMES (e_level entry))),
                      (''message'', JString (e_message entry)),
                      (''timestamp'', JString time)];
               obj = (if truthy (e_context entry)
                      then obj @ [(''context'', JString (the (e_context entry)))] else obj);
               obj = (case e_data entry of
                        None \<Rightarrow> obj
                      | Some d \<Rightarrow> obj @ [(''data'', JObject d)]);
               obj = (case e_error entry of
                        None \<Rightarrow> obj
                      | Some er \<Rightarrow> obj @ [(''error'', error_object er)])
           in Inr obj))"

definition JsonFormatter_format :: "LogEntry \<Rightarrow> exn + string" where
  "JsonFormatter_format entry =
     (case JsonFormatter_obj entry of
        Inl x \<Rightarrow> Inl x
      | Inr obj \<Rightarrow> Inr (JSON_stringify obj))"

text \<open>
  \<^verbatim>\<open>interface Formatter { format(entry: LogEntry): string }\<close>: the three built-in
  classes, and a formatter supplied by the user (any function that returns a string or
  throws).
\<close>

datatype Formatter =
    SimpleFormatter
  | TimestampedFormatter
  | JsonFormatter
  | CustomFormatter "LogEntry \<Rightarrow> exn + string"

fun format :: "Formatter \<Rightarrow> LogEntry \<Rightarrow> exn + string" where
  "format SimpleFormatter entry = Inr (SimpleFormatter_format entry)"
| "format TimestampedFormatter entry = TimestampedFormatter_format entry"
| "format JsonFormatter entry = JsonFormatter_format entry"
| "format (CustomFormatter f) entry = f entry"

section \<open>The object store\<close>

text \<open>
  Loggers, transport arrays and transports are mutable objects that the code shares by
  reference, so they live in a store and are named by their identity. \<open>arrays h a\<close> is
  the content of the array object \<open>a\<close>; two loggers whose \<open>l_transports\<close> are the same
  \<open>a\<close> hold the same array object. The \<open>next_\<close> counters give \<^verbatim>\<open>new\<close> a fresh identity.
\<close>

type_synonym tid = nat
type_synonym aref = nat
type_synonym lref = nat

text \<open>
  \<^verbatim>\<open>class Logger { private level; private context; private transports; private formatter }\<close>
\<close>

record Logger =
  l_level :: LogLevel
  l_context :: "string option"
  l_transports :: aref
  l_formatter :: Formatter

text \<open>The four methods of \<^verbatim>\<open>globalThis.console\<close> that \<^verbatim>\<open>ConsoleTransport\<close> calls.\<close>

datatype channel = console_error | console_warn | console_info | console_debug

text \<open>
  The class of a transport object with its private fields. A \<^verbatim>\<open>CallbackTransport\<close>
  holds its \<^verbatim>\<open>callback\<close> (\<open>None\<close> when the property is not a function) as the name
  of a user function. \<open>CustomTransport\<close> is any other object satisfying
  \<^verbatim>\<open>interface Transport\<close>, whose \<^verbatim>\<open>write\<close> is user code.
\<close>

datatype Transport =
    ConsoleTransport Formatter
  | MemoryTransport
  | CallbackTransport "nat option" Formatter
  | CustomTransport

record heap =
  loggers :: "lref \<Rightarrow> Logger"
  next_logger :: lref
  arrays :: "aref \<Rightarrow> tid list"
  next_array :: aref
  t_class :: "tid \<Rightarrow> Transport"
  t_name :: "tid \<Rightarrow> string"
  next_transport :: tid
  mem_entries :: "tid \<Rightarrow> LogEntry list"
  console :: "(channel \<times> string) list"

text \<open>
  User code: the \<^verbatim>\<open>write\<close> method of each custom transport and the functions given as
  callbacks. Such code runs on the store, returns normally (\<open>None\<close>) or throws
  (\<open>Some x\<close>), and leaves the store as it made it. It receives the entry as a value:
  user code is taken not to assign to the entry object it is handed.
\<close>

record user_code =
  custom_write :: "tid \<Rightarrow> LogEntry \<Rightarrow> heap \<Rightarrow> exn option \<times> heap"
  callback_fn :: "nat \<Rightarrow> LogEntry \<Rightarrow> string \<Rightarrow> heap \<Rightarrow> exn option \<times> heap"

section \<open>transports.ts\<close>

definition new_transport :: "Transport \<Rightarrow> string \<Rightarrow> heap \<Rightarrow> tid \<times> heap" where
  "new_transport cls name h =
     (let t = next_transport h
      in (t, h\<lparr>t_class := (t_class h)(t := cls),
                t_name := (t_name h)(t := name),
                next_transport := Suc t\<rparr>))"

text \<open>
  \<^verbatim>\<open>
  constructor(options: ConsoleTransportOptions = {}) {
    this.formatter = options.formatter ?? new SimpleFormatter();
  }
  \<close>
  with \<^verbatim>\<open>readonly name = "console"\<close>.
\<close>

definition ConsoleTransport_new :: "Formatter option \<Rightarrow> heap \<Rightarrow> tid \<times> heap" where
  "ConsoleTransport_new options_formatter h =
     new_transport
       (ConsoleTransport (case options_formatter of Some f \<Rightarrow> f | None \<Rightarrow> SimpleFormatter))
       ''console'' h"

text \<open>
  \<^verbatim>\<open>
  write(entry: LogEntry): void {
    const message = this.formatter.format(entry);
    const console = getConsole();
    switch (entry.level) {
      case LogLevel.ERROR: console.error(message); break;
      case LogLevel.WARN: console.warn(message); break;
      case LogLevel.INFO: console.info(message); break;
      case LogLevel.DEBUG:
      case LogLevel.TRACE: console.debug(message); break;
    }
  }
  \<close>
\<close>

fun console_channel :: "LogLevel \<Rightarrow> channel" where
  "console_channel ERROR = console_error"
| "console_channel WARN = console_warn"
| "console_channel INFO = console_info"
| "console_channel DEBUG = console_debug"
| "console_channel TRACE = console_debug"

definition ConsoleTransport_write :: "Formatter \<Rightarrow> LogEntry \<Rightarrow> heap \<Rightarrow> exn option \<times> heap" where
  "ConsoleTransport_write formatter entry h =
     (case format formatter entry of
        Inl x \<Rightarrow> (Some x, h)
      | Inr message \<Rightarrow>
          (None, h\<lparr>console := console h @ [(console_channel (e_level entry), message)]\<rparr>))"

text \<open>
  \<^verbatim>\<open>class MemoryTransport { readonly name = "memory"; readonly entries: LogEntry[] = []; ... }\<close>
\<close>

definition MemoryTransport_new :: "heap \<Rightarrow> tid \<times> heap" where
  "MemoryTransport_new h =
     (let (t, h') = new_transport MemoryTransport ''memory'' h
      in (t, h'\<lparr>mem_entries := (mem_entries h')(t := [])\<rparr>))"

text \<open>\<^verbatim>\<open>write(entry) { this.entries.push(entry); }\<close>\<close>

definition MemoryTransport_write :: "tid \<Rightarrow> LogEntry \<Rightarrow> heap \<Rightarrow> exn option \<times> heap" where
  "MemoryTransport_write t entry h =
     (None, h\<lparr>mem_entries := (mem_entries h)(t := mem_entries h t @ [entry])\<rparr>)"

text \<open>\<^verbatim>\<open>clear() { this.entries.length = 0; }\<close>\<close>

definition MemoryTransport_clear :: "tid \<Rightarrow> heap \<Rightarrow> heap" where
  "MemoryTransport_clear t h = h\<lparr>mem_entries := (mem_entries h)(t := [])\<rparr>"

text \<open>
  \<^verbatim>\<open>
  getEntries(level?: LogLevel): LogEntry[] {
    if (level === undefined) { return [...this.entries]; }
    return this.entries.filter((e) => e.level === level);
  }
  \<close>
\<close>

definition MemoryTransport_getEntries :: "tid \<Rightarrow> LogLevel option \<Rightarrow> heap \<Rightarrow> LogEntry list" where
  "MemoryTransport_getEntries t level h =
     (case level of
        None \<Rightarrow> mem_entries h t
      | Some l \<Rightarrow> filter (\<lambda>e. e_level e = l) (mem_entries h t))"

text \<open>
  \<^verbatim>\<open>interface CallbackTransportOptions { callback: (entry, formatted) => ...; formatter? }\<close>
  as the constructor meets it at run time: the property \<^verbatim>\<open>callback\<close> holds a function
  (\<open>Some\<close>, by its name) or does not. The argument of the constructor is \<open>Some\<close> such
  value, or \<open>None\<close> when it is \<^verbatim>\<open>undefined\<close> or \<^verbatim>\<open>null\<close>, which has no properties to
  read.
\<close>

record CallbackTransportOptions =
  cb_callback :: "nat option"
  cb_formatter :: "Formatter option"

text \<open>
  \<^verbatim>\<open>
  constructor(options: CallbackTransportOptions) {
    this.callback = options.callback;
    this.formatter = options.formatter ?? new SimpleFormatter();
  }
  \<close>
  with \<^verbatim>\<open>readonly name = "callback"\<close>. \<open>Inl\<close> is an exception thrown by the
  constructor: reading \<^verbatim>\<open>options.callback\<close> of \<^verbatim>\<open>undefined\<close> or \<^verbatim>\<open>null\<close> throws a
  \<^verbatim>\<open>TypeError\<close>.
\<close>

definition CallbackTransport_new ::
  "CallbackTransportOptions option \<Rightarrow> heap \<Rightarrow> exn + tid \<times> heap" where
  "CallbackTransport_new options h =
     (case options of
        None \<Rightarrow> Inl TypeError
      | Some opts \<Rightarrow>
          Inr (new_transport
                 (CallbackTransport (cb_callback opts)
                    (case cb_formatter opts of Some f \<Rightarrow> f | None \<Rightarrow> SimpleFormatter))
                 ''callback'' h))"

text \<open>
  \<^verbatim>\<open>
  write(entry: LogEntry): void | Promise<void> {
    const formatted = this.formatter.format(entry);
    return this.callback(entry, formatted);
  }
  \<close>
  Calling a \<^verbatim>\<open>callback\<close> that is not a function throws a \<^verbatim>\<open>TypeError\<close>.
\<close>

definition CallbackTransport_write ::
  "user_code \<Rightarrow> nat option \<Rightarrow> Formatter \<Rightarrow> LogEntry \<Rightarrow> heap \<Rightarrow> exn option \<times> heap" where
  "CallbackTransport_write uc callback formatter entry h =
     (case format formatter entry of
        Inl x \<Rightarrow> (Some x, h)
      | Inr formatted \<Rightarrow>
          (case callback of
             None \<Rightarrow> (Some TypeError, h)
           | Some f \<Rightarrow> callback_fn uc f entry formatted h))"

text \<open>\<^verbatim>\<open>transport.write(entry)\<close>: the method of the transport's class.\<close>

definition transport_write :: "user_code \<Rightarrow> tid \<Rightarrow> LogEntry \<Rightarrow> heap \<Rightarrow> exn option \<times> heap" where
  "transport_write uc t entry h =
     (case t_class h t of
        ConsoleTransport f \<Rightarrow> ConsoleTransport_write f entry h
      | MemoryTransport \<Rightarrow> MemoryTransport_write t entry h
      | CallbackTransport cb f \<Rightarrow> CallbackTransport_write uc cb f entry h
      | CustomTransport \<Rightarrow> custom_write uc t entry h)"

section \<open>logger.ts\<close>

text \<open>\<^verbatim>\<open>interface LoggerOptions { level?; context?; transports?; formatter? }\<close>\<close>

record LoggerOptions =
  o_level :: "LogLevel option"
  o_context :: "string option"
  o_transports :: "aref option"
  o_formatter :: "Formatter option"

text \<open>\<^verbatim>\<open>interface LogOptions { context?; data?; error? }\<close>\<close>

record LogOptions =
  opt_context :: "string option"
  opt_data :: "(string \<times> json) list option"
  opt_error :: "JsError option"

definition new_array :: "tid list \<Rightarrow> heap \<Rightarrow> aref \<times> heap" where
  "new_array xs h =
     (let a = next_array h
      in (a, h\<lparr>arrays := (arrays h)(a := xs), next_array := Suc a\<rparr>))"

text \<open>
  \<^verbatim>\<open>
  constructor(options: LoggerOptions = {}) {
    this.level = options.level ?? LogLevel.INFO;
    this.context = options.context;
    this.transports = options.transports ?? [new ConsoleTransport()];
    this.formatter = options.formatter ?? new SimpleFormatter();
  }
  \<close>
\<close>

definition Logger_new :: "LoggerOptions \<Rightarrow> heap \<Rightarrow> lref \<times> heap" where
  "Logger_new options h =
     (let level = (case o_level options of Some l \<Rightarrow> l | None \<Rightarrow> INFO);
          context = o_context options;
          (transports, h1) =
             (case o_transports options of
                Some a \<Rightarrow> (a, h)
              | None \<Rightarrow> (let (t, h') = ConsoleTransport_new None h in new_array [t] h'));
          formatter = (case o_formatter options of Some f \<Rightarrow> f | None \<Rightarrow> SimpleFormatter);
          this = next_logger h1
      in (this,
          h1\<lparr>loggers := (loggers h1)(this :=
                \<lparr>l_level = level, l_context = context,
                 l_transports = transports, l_formatter = formatter\<rparr>),
             next_logger := Suc this\<rparr>))"

text \<open>
  The entry built by \<^verbatim>\<open>log\<close> (\<open>now\<close> is what \<^verbatim>\<open>new Date()\<close> returns):
  \<^verbatim>\<open>
  const ctx = options?.context ?? this.context;
  const entry: LogEntry = { level, message, timestamp: new Date() };
  if (ctx !== undefined) { entry.context = ctx; }
  if (options?.data !== undefined) { entry.data = options.data; }
  if (options?.error !== undefined) { entry.error = options.error; }
  \<close>
\<close>

definition build_entry ::
  "Logger \<Rightarrow> LogLevel \<Rightarrow> string \<Rightarrow> LogOptions option \<Rightarrow> Date \<Rightarrow> LogEntry" where
  "build_entry this level message options now =
     (let ctx = (case (case options of None \<Rightarrow> None | Some opts \<Rightarrow> opt_context opts) of
                   Some c \<Rightarrow> Some c
                 | None \<Rightarrow> l_context this);
          entry = \<lparr>e_level = level, e_message = message, e_context = None,
                   e_timestamp = now, e_data = None, e_error = None\<rparr>;
          entry = (case ctx of None \<Rightarrow> entry | Some c \<Rightarrow> entry\<lparr>e_context := Some c\<rparr>);
          entry = (case (case options of None \<Rightarrow> None | Some opts \<Rightarrow> opt_data opts) of
                     None \<Rightarrow> entry
                   | Some d \<Rightarrow> entry\<lparr>e_data := Some d\<rparr>);
          entry = (case (case options of None \<Rightarrow> None | Some opts \<Rightarrow> opt_error opts) of
                     None \<Rightarrow> entry
                   | Some er \<Rightarrow> entry\<lparr>e_error := Some er\<rparr>)
      in entry)"

text \<open>
  The dispatch loop
  \<^verbatim>\<open>
  for (const transport of this.transports) {
    transport.write(entry);
  }
  \<close>
  The array iterator keeps the array object \<open>a\<close> and an index \<open>i\<close>; each step reads the
  current length and the current element at \<open>i\<close>, so the loop sees what a \<^verbatim>\<open>write\<close>
  did to the array. An exception thrown by \<^verbatim>\<open>write\<close> leaves the loop. The third
  component of the result lists the calls of \<^verbatim>\<open>write\<close> made by the loop, in order.
  A loop that never ends (a \<^verbatim>\<open>write\<close> that keeps appending) has the value \<open>None\<close>.
\<close>

partial_function (option) dispatch ::
  "user_code \<Rightarrow> aref \<Rightarrow> LogEntry \<Rightarrow> nat \<Rightarrow> heap \<Rightarrow> (tid \<times> LogEntry) list
     \<Rightarrow> (exn option \<times> heap \<times> (tid \<times> LogEntry) list) option" where
  "dispatch uc a entry i h calls =
     (if length (arrays h a) \<le> i then Some (None, h, calls)
      else (let transport = arrays h a ! i in
            case transport_write uc transport entry h of
              (Some x, h') \<Rightarrow> Some (Some x, h', calls @ [(transport, entry)])
            | (None, h') \<Rightarrow> dispatch uc a entry (i + 1) h' (calls @ [(transport, entry)])))"

text \<open>
  \<^verbatim>\<open>
  log(level: LogLevel, message: string, options?: LogOptions): void {
    if (level > this.level) { return; }
    ... build the entry ...
    for (const transport of this.transports) { transport.write(entry); }
  }
  \<close>
\<close>

definition log ::
  "user_code \<Rightarrow> lref \<Rightarrow> LogLevel \<Rightarrow> string \<Rightarrow> LogOptions option \<Rightarrow> Date \<Rightarrow> heap
     \<Rightarrow> (exn option \<times> heap \<times> (tid \<times> LogEntry) list) option" where
  "log uc this level message options now h =
     (if level_num level > level_num (l_level (loggers h this)) then Some (None, h, [])
      else dispatch uc (l_transports (loggers h this))
             (build_entry (loggers h this) level message options now) 0 h [])"

text \<open>
  \<^verbatim>\<open>
  child(context: string): Logger {
    return new Logger({
      level: this.level,
      context: this.context ? `${this.context}:${context}` : context,
      transports: this.transports,
      formatter: this.formatter,
    });
  }
  \<close>
\<close>

definition child :: "lref \<Rightarrow> string \<Rightarrow> heap \<Rightarrow> lref \<times> heap" where
  "child this context h =
     Logger_new
       \<lparr>o_level = Some (l_level (loggers h this)),
        o_context = Some (if truthy (l_context (loggers h this))
                          then the (l_context (loggers h this)) @ '':'' @ context
                          else context),
        o_transports = Some (l_transports (loggers h this)),
        o_formatter = Some (l_formatter (loggers h this))\<rparr> h"

text \<open>\<^verbatim>\<open>setLevel(level) { this.level = level; }\<close> and \<^verbatim>\<open>getLevel() { return this.level; }\<close>\<close>

definition setLevel :: "lref \<Rightarrow> LogLevel \<Rightarrow> heap \<Rightarrow> heap" where
  "setLevel this level h = h\<lparr>loggers := (loggers h)(this := (loggers h this)\<lparr>l_level := level\<rparr>)\<rparr>"

definition getLevel :: "lref \<Rightarrow> heap \<Rightarrow> LogLevel" where
  "getLevel this h = l_level (loggers h this)"

text \<open>\<^verbatim>\<open>addTransport(transport) { this.transports.push(transport); }\<close>\<close>

definition addTransport :: "lref \<Rightarrow> tid \<Rightarrow> heap \<Rightarrow> heap" where
  "addTransport this transport h =
     (let a = l_transports (loggers h this)
      in h\<lparr>arrays := (arrays h)(a := arrays h a @ [transport])\<rparr>)"

text \<open>\<^verbatim>\<open>Array.prototype.findIndex\<close>: the index of the first element satisfying the
  predicate, or -1.\<close>

fun findIndex_from :: "int \<Rightarrow> ('a \<Rightarrow> bool) \<Rightarrow> 'a list \<Rightarrow> int" where
  "findIndex_from k p [] = -1"
| "findIndex_from k p (x # xs) = (if p x then k else findIndex_from (k + 1) p xs)"

definition findIndex :: "('a \<Rightarrow> bool) \<Rightarrow> 'a list \<Rightarrow> int" where
  "findIndex p xs = findIndex_from 0 p xs"

text \<open>
  \<^verbatim>\<open>Array.prototype.splice(start, deleteCount)\<close> without inserted items: a negative
  \<open>start\<close> counts from the end, and the deletion is clamped to the array.
\<close>

definition Array_splice :: "'a list \<Rightarrow> int \<Rightarrow> nat \<Rightarrow> 'a list" where
  "Array_splice xs start deleteCount =
     (let len = int (length xs);
          s = nat (if start < 0 then max (len + start) 0 else min start len)
      in take s xs @ drop (s + deleteCount) xs)"

text \<open>
  \<^verbatim>\<open>
  removeTransport(name: string): boolean {
    const index = this.transports.findIndex((t) => t.name === name);
    if (index !== -1) {
      this.transports.splice(index, 1);
      return true;
    }
    return false;
  }
  \<close>
\<close>

definition removeTransport :: "lref \<Rightarrow> string \<Rightarrow> heap \<Rightarrow> bool \<times> heap" where
  "removeTransport this name h =
     (let a = l_transports (loggers h this);
          index = findIndex (\<lambda>t. t_name h t = name) (arrays h a)
      in if index \<noteq> -1
         then (True, h\<lparr>arrays := (arrays h)(a := Array_splice (arrays h a) index 1)\<rparr>)
         else (False, h))"

section \<open>Concrete inputs\<close>

text \<open>The entry of the formatter tests, with an empty \<^verbatim>\<open>data\<close> object.\<close>

definition entry_empty_data :: LogEntry where
  "entry_empty_data =
     \<lparr>e_level = INFO, e_message = ''Test message'', e_context = None,
      e_timestamp = ValidDate ''2024-01-15T10:30:00.000Z'', e_data = Some [], e_error = None\<rparr>"

text \<open>A store with no object yet, and user code that does nothing.\<close>

definition empty_heap :: heap where
  "empty_heap =
     \<lparr>loggers = (\<lambda>_. \<lparr>l_level = INFO, l_context = None, l_transports = 0,
                        l_formatter = SimpleFormatter\<rparr>),
      next_logger = 0,
      arrays = (\<lambda>_. []),
      next_array = 0,
      t_class = (\<lambda>_. CustomTransport),
      t_name = (\<lambda>_. []),
      next_transport = 0,
      mem_entries = (\<lambda>_. []),
      console = []\<rparr>"

definition no_user_code :: user_code where
  "no_user_code =
     \<lparr>custom_write = (\<lambda>t e h. (None, h)), callback_fn = (\<lambda>f e s h. (None, h))\<rparr>"

text \<open>
  \<^verbatim>\<open>new Logger({ level: LogLevel.INFO, context: "App", transports: [m0, m1] })\<close> with two
  memory transports: the logger is object 0, its array is object 0, the transports are
  0 and 1.
\<close>

definition heap_memory_pair :: heap where
  "heap_memory_pair =
     (let (t0, h0) = MemoryTransport_new empty_heap;
          (t1, h1) = MemoryTransport_new h0;
          (a, h2) = new_array [t0, t1] h1;
          (l, h3) = Logger_new \<lparr>o_level = Some INFO, o_context = Some ''App'',
                                o_transports = Some a, o_formatter = None\<rparr> h2
      in h3)"

definition memory_pair_inv :: "heap \<Rightarrow> bool" where
  "memory_pair_inv h \<longleftrightarrow>
     t_class h 0 = MemoryTransport \<and> t_class h (Suc 0) = MemoryTransport
     \<and> arrays h 0 = [0, Suc 0] \<and> loggers h 0 = loggers heap_memory_pair 0"




text \<open>
  A logger (object 0) whose array holds the custom transport 0 only; the \<^verbatim>\<open>write\<close> of
  that transport calls \<^verbatim>\<open>logger.addTransport(m)\<close> with the memory transport 1.
\<close>

definition adding_code :: user_code where
  "adding_code =
     \<lparr>custom_write = (\<lambda>t e h. (None, addTransport 0 (Suc 0) h)),
      callback_fn = (\<lambda>f e s h. (None, h))\<rparr>"

definition heap_adder :: heap where
  "heap_adder =
     (let (t0, h0) = new_transport CustomTransport ''adder'' empty_heap;
          (t1, h1) = MemoryTransport_new h0;
          (a, h2) = new_array [t0] h1;
          (l, h3) = Logger_new \<lparr>o_level = Some INFO, o_context = None,
                                o_transports = Some a, o_formatter = None\<rparr> h2
      in h3)"

definition adder_inv :: "heap \<Rightarrow> bool" where
  "adder_inv h \<longleftrightarrow>
     t_class h 0 = CustomTransport \<and> t_class h (Suc 0) = MemoryTransport
     \<and> l_transports (loggers h 0) = 0
     \<and> (\<exists>rest. arrays h 0 = 0 # rest \<and> set rest \<subseteq> {Suc 0})"

text \<open>The entry that \<^verbatim>\<open>logger.info("m")\<close> builds at the time \<^verbatim>\<open>t\<close>, by context.\<close>

definition entry_m :: "string option \<Rightarrow> LogEntry" where
  "entry_m ctx =
     \<lparr>e_level = INFO, e_message = ''m'', e_context = ctx,
      e_timestamp = ValidDate ''t'', e_data = None, e_error = None\<rparr>"

text \<open>
  A logger (object 0) over three custom transports named \<^verbatim>\<open>dup\<close>, \<^verbatim>\<open>other\<close>, \<^verbatim>\<open>dup\<close>.
\<close>

definition heap_named :: heap where
  "heap_named =
     (let (t0, h0) = new_transport CustomTransport ''dup'' empty_heap;
          (t1, h1) = new_transport CustomTransport ''other'' h0;
          (t2, h2) = new_transport CustomTransport ''dup'' h1;
          (a, h3) = new_array [t0, t1, t2] h2;
          (l, h4) = Logger_new \<lparr>o_level = None, o_context = None,
                                o_transports = Some a, o_formatter = None\<rparr> h3
      in h4)"

text \<open>\<^verbatim>\<open>new Logger({ context: "" })\<close> and \<^verbatim>\<open>new Logger()\<close>, each on the empty store.\<close>

definition heap_empty_context :: heap where
  "heap_empty_context =
     snd (Logger_new \<lparr>o_level = None, o_context = Some [],
                       o_transports = None, o_formatter = None\<rparr> empty_heap)"

definition heap_no_context :: heap where
  "heap_no_context =
     snd (Logger_new \<lparr>o_level = None, o_context = None,
                       o_transports = None, o_formatter = None\<rparr> empty_heap)"

text \<open>The options \<^verbatim>\<open>{}\<close> given to \<^verbatim>\<open>new CallbackTransport\<close>.\<close>

definition options_without_callback :: CallbackTransportOptions where
  "options_without_callback = \<lparr>cb_callback = None, cb_formatter = None\<rparr>"

text \<open>
  \<^verbatim>\<open>info\<close> spelt with U+0131 (dotless i) for its first letter, and a value for the
  parameter of \<open>toUpperCase\<close>.
\<close>

definition dotless_info :: jsstring where
  "dotless_info = [305, 110, 102, 111]"

definition unchanged_elsewhere :: "jsstring \<Rightarrow> jsstring" where
  "unchanged_elsewhere s = s"

text \<open>
  A logger (object 0) whose array holds the custom transport 0, named \<^verbatim>\<open>self\<close>, followed
  by the memory transport 1; the \<^verbatim>\<open>write\<close> of the custom transport calls
  \<^verbatim>\<open>logger.removeTransport("self")\<close>.
\<close>

definition removing_code :: user_code where
  "removing_code =
     \<lparr>custom_write = (\<lambda>t e h. (None, snd (removeTransport 0 ''self'' h))),
      callback_fn = (\<lambda>f e s h. (None, h))\<rparr>"

definition heap_remover :: heap where
  "heap_remover =
     (let (t0, h0) = new_transport CustomTransport ''self'' empty_heap;
          (t1, h1) = MemoryTransport_new h0;
          (a, h2) = new_array [t0, t1] h1;
          (l, h3) = Logger_new \<lparr>o_level = Some INFO, o_context = None,
                                o_transports = Some a, o_formatter = None\<rparr> h2
      in h3)"

section \<open>Properties of parseLogLevel\<close>

lemma toUpperCase_unit_Cons_iff:
  assumes "tabled c" "65 \<le> m" "m \<le> 90" "m \<noteq> 83"
  shows "toUpperCase_unit c = m # rest
           \<longleftrightarrow> rest = [] \<and> (c = m \<or> c = m + 32 \<or> (m = 73 \<and> c = 305))"
  using assms unfolding toUpperCase_unit_def tabled_def by (auto split: if_splits)

lemma toUpperCase_unit_not_Nil: "toUpperCase_unit c \<noteq> []"
  by (simp add: toUpperCase_unit_def)

lemma of_char_I: "(of_char n :: nat) = 73 \<longleftrightarrow> n = CHR ''I''"
proof -
  have "(of_char (CHR ''I'') :: nat) = 73" by simp
  then show ?thesis by (metis of_char_eq_iff)
qed

lemma concat_toUpperCase_unit_iff:
  assumes "list_all tabled s"
      and "\<forall>n \<in> set name. 65 \<le> (of_char n :: nat) \<and> (of_char n :: nat) \<le> 90
                           \<and> (of_char n :: nat) \<noteq> 83"
  shows "concat (map toUpperCase_unit s) = units name \<longleftrightarrow> spelling s name"
  using assms
proof (induction s arbitrary: name)
  case Nil
  then show ?case by (auto simp add: units_def spelling_def)
next
  case (Cons c cs)
  show ?case
  proof (cases name)
    case Nil
    then show ?thesis by (simp add: units_def spelling_def toUpperCase_unit_not_Nil)
  next
    case (Cons n ns)
    with Cons.prems have t: "tabled c" and ts: "list_all tabled cs"
      and r: "65 \<le> (of_char n :: nat)" "(of_char n :: nat) \<le> 90" "(of_char n :: nat) \<noteq> 83"
      and rs: "\<forall>n \<in> set ns. 65 \<le> (of_char n :: nat) \<and> (of_char n :: nat) \<le> 90
                             \<and> (of_char n :: nat) \<noteq> 83"
      by auto
    have "concat (map toUpperCase_unit (c # cs)) = units (n # ns)
            \<longleftrightarrow> (\<exists>rest. toUpperCase_unit c = of_char n # rest
                        \<and> rest @ concat (map toUpperCase_unit cs) = units ns)"
      using toUpperCase_unit_not_Nil[of c]
      by (cases "toUpperCase_unit c") (auto simp add: units_def)
    also have "\<dots> \<longleftrightarrow> (c = of_char n \<or> c = of_char n + 32 \<or> ((of_char n :: nat) = 73 \<and> c = 305))
                       \<and> concat (map toUpperCase_unit cs) = units ns"
      using toUpperCase_unit_Cons_iff[OF t r] by auto
    also have "\<dots> \<longleftrightarrow> spelling (c # cs) (n # ns)"
      using Cons.IH[OF ts rs] by (simp add: spelling_def of_char_I)
    finally show ?thesis using Cons by simp
  qed
qed

lemma LOG_LEVEL_NAMES_letters:
  "\<forall>n \<in> set (LOG_LEVEL_NAMES l). 65 \<le> (of_char n :: nat) \<and> (of_char n :: nat) \<le> 90
                                    \<and> (of_char n :: nat) \<noteq> 83"
  by (cases l) simp_all

lemma parseLogLevel_toUpperCase:
  "parseLogLevel el s =
     (if toUpperCase el s = units ''ERROR'' then Some ERROR
      else if toUpperCase el s = units ''WARN'' then Some WARN
      else if toUpperCase el s = units ''INFO'' then Some INFO
      else if toUpperCase el s = units ''DEBUG'' then Some DEBUG
      else if toUpperCase el s = units ''TRACE'' then Some TRACE
      else None)"
  by (simp add: parseLogLevel_def Object_entries_def Number_def digit_val_def as_LogLevel_def)

lemma parseLogLevel_Some_iff:
  "parseLogLevel el s = Some l \<longleftrightarrow> toUpperCase el s = units (LOG_LEVEL_NAMES l)"
  by (cases l) (auto simp add: parseLogLevel_toUpperCase units_def)

lemma case_variant_spelling:
  assumes "case_variant s name"
      and "\<forall>n \<in> set name. (of_char n :: nat) \<le> 90"
  shows "list_all tabled s \<and> list_all (\<lambda>c. c < 128) s \<and> spelling s name"
  using assms unfolding case_variant_def spelling_def
  by (induction s name rule: list_all2_induct) (auto simp add: tabled_def)

lemma spelling_ascii_case_variant:
  assumes "spelling s name" and "list_all (\<lambda>c. c < 128) s"
  shows "case_variant s name"
  using assms unfolding case_variant_def spelling_def
  by (induction s name rule: list_all2_induct) auto

text \<open>
  Claim C4, amended. \<open>parseLogLevel\<close> returns a level exactly when the input, upper-cased
  by \<^verbatim>\<open>toUpperCase\<close>, equals the canonical name of that level, and \<^verbatim>\<open>null\<close> (never a
  default level) when it equals none of the five names. Every case variant of a
  canonical name is mapped to its level; among the strings of ASCII characters these are
  the only ones, and among the strings over the code units 0..255, U+0131 and U+017F the
  only others are the spellings with U+0131 for \<^verbatim>\<open>I\<close>. \<^verbatim>\<open>WARNING\<close>, the empty string and
  \<^verbatim>\<open>0\<close> yield \<^verbatim>\<open>null\<close>.
\<close>

theorem parseLogLevel_upper_case_match:
  "(parseLogLevel elsewhere s = Some l
      \<longleftrightarrow> toUpperCase elsewhere s = units (LOG_LEVEL_NAMES l))
   \<and> (parseLogLevel elsewhere s = None
      \<longleftrightarrow> (\<forall>l'. toUpperCase elsewhere s \<noteq> units (LOG_LEVEL_NAMES l')))
   \<and> (case_variant s (LOG_LEVEL_NAMES l) \<longrightarrow> parseLogLevel elsewhere s = Some l)
   \<and> (list_all (\<lambda>c. c < 128) s \<longrightarrow>
        (parseLogLevel elsewhere s = Some l \<longleftrightarrow> case_variant s (LOG_LEVEL_NAMES l)))
   \<and> (list_all tabled s \<longrightarrow>
        (parseLogLevel elsewhere s = Some l \<longleftrightarrow> spelling s (LOG_LEVEL_NAMES l)))
   \<and> parseLogLevel elsewhere (units ''WARNING'') = None
   \<and> parseLogLevel elsewhere [] = None
   \<and> parseLogLevel elsewhere (units ''0'') = None"
proof -
  have le: "\<forall>n \<in> set (LOG_LEVEL_NAMES l). (of_char n :: nat) \<le> 90"
    using LOG_LEVEL_NAMES_letters[of l] by blast
  have "parseLogLevel elsewhere s = None
          \<longleftrightarrow> (\<forall>l'. parseLogLevel elsewhere s \<noteq> Some l')" by auto
  then have none: "parseLogLevel elsewhere s = None
      \<longleftrightarrow> (\<forall>l'. toUpperCase elsewhere s \<noteq> units (LOG_LEVEL_NAMES l'))"
    by (simp add: parseLogLevel_Some_iff)
  have tab: "parseLogLevel elsewhere s = Some l \<longleftrightarrow> spelling s (LOG_LEVEL_NAMES l)"
    if t: "list_all tabled s"
    using concat_toUpperCase_unit_iff[OF t LOG_LEVEL_NAMES_letters[of l]] t
    by (simp add: parseLogLevel_Some_iff toUpperCase_def)
  have var: "parseLogLevel elsewhere s = Some l" if v: "case_variant s (LOG_LEVEL_NAMES l)"
    using case_variant_spelling[OF v le] tab by blast
  have asc: "parseLogLevel elsewhere s = Some l \<longleftrightarrow> case_variant s (LOG_LEVEL_NAMES l)"
    if a: "list_all (\<lambda>c. c < 128) s"
  proof
    assume p: "parseLogLevel elsewhere s = Some l"
    have "list_all tabled s"
      using a by (induction s) (auto simp add: tabled_def)
    with p tab have "spelling s (LOG_LEVEL_NAMES l)" by blast
    then show "case_variant s (LOG_LEVEL_NAMES l)" using a by (rule spelling_ascii_case_variant)
  next
    assume "case_variant s (LOG_LEVEL_NAMES l)"
    then show "parseLogLevel elsewhere s = Some l" by (rule var)
  qed
  have ex: "parseLogLevel elsewhere (units ''WARNING'') = None
            \<and> parseLogLevel elsewhere [] = None
            \<and> parseLogLevel elsewhere (units ''0'') = None"
    by (simp add: parseLogLevel_toUpperCase toUpperCase_def toUpperCase_unit_def units_def
          tabled_def)
  from none tab var asc ex show ?thesis by (simp add: parseLogLevel_Some_iff)
qed

text \<open>
  Claim C4 as stated (a level for the case variants of its name, \<^verbatim>\<open>null\<close> for every other
  string) fails: \<^verbatim>\<open>info\<close> spelt with U+0131 (dotless i) is a case variant of none of the
  five names, and \<open>parseLogLevel\<close> returns \<^verbatim>\<open>LogLevel.INFO\<close> for it, because
  \<^verbatim>\<open>toUpperCase\<close> maps U+0131 to \<^verbatim>\<open>I\<close>.
\<close>

theorem parseLogLevel_dotless_i_counterexample:
  "parseLogLevel unchanged_elsewhere dotless_info = Some INFO
   \<and> \<not> case_variant dotless_info (LOG_LEVEL_NAMES INFO)
   \<and> \<not> case_variant dotless_info (LOG_LEVEL_NAMES ERROR)
   \<and> \<not> case_variant dotless_info (LOG_LEVEL_NAMES WARN)
   \<and> \<not> case_variant dotless_info (LOG_LEVEL_NAMES DEBUG)
   \<and> \<not> case_variant dotless_info (LOG_LEVEL_NAMES TRACE)"
  by (simp add: parseLogLevel_toUpperCase toUpperCase_def toUpperCase_unit_def units_def
        tabled_def dotless_info_def case_variant_def)

theorem parseLogLevel_upper_case_match_witness:
  "case_variant (units ''wArN'') ''WARN''
   \<and> parseLogLevel unchanged_elsewhere (units ''wArN'') = Some WARN
   \<and> list_all tabled dotless_info \<and> spelling dotless_info ''INFO''
   \<and> parseLogLevel unchanged_elsewhere dotless_info = Some INFO
   \<and> list_all (\<lambda>c. c < 128) (units ''warning'')
   \<and> parseLogLevel unchanged_elsewhere (units ''warning'') \<noteq> Some WARN"
proof -
  have v: "case_variant (units ''wArN'') (LOG_LEVEL_NAMES WARN)"
    by (simp add: case_variant_def units_def)
  have t: "list_all tabled dotless_info" and sp: "spelling dotless_info (LOG_LEVEL_NAMES INFO)"
    by (simp_all add: dotless_info_def tabled_def spelling_def)
  have a: "list_all (\<lambda>c. c < 128) (units ''warning'')" by (simp add: units_def)
  have n: "\<not> case_variant (units ''warning'') (LOG_LEVEL_NAMES WARN)"
    by (simp add: case_variant_def units_def)
  from parseLogLevel_upper_case_match [of unchanged_elsewhere "units ''wArN''" WARN] v
  have 1: "parseLogLevel unchanged_elsewhere (units ''wArN'') = Some WARN" by blast
  from parseLogLevel_upper_case_match [of unchanged_elsewhere dotless_info INFO] t sp
  have 2: "parseLogLevel unchanged_elsewhere dotless_info = Some INFO" by blast
  from parseLogLevel_upper_case_match [of unchanged_elsewhere "units ''warning''" WARN] a n
  have 3: "parseLogLevel unchanged_elsewhere (units ''warning'') \<noteq> Some WARN" by blast
  from v t sp a 1 2 3 show ?thesis by simp
qed

section \<open>Properties of the formatters\<close>

lemma serialize_properties_append:
  "serialize_properties (xs @ ys) = serialize_properties xs @ serialize_properties ys"
  by (induction xs) (auto split: option.splits)

lemma JsonFormatter_obj_data:
  assumes "e_data entry = Some d" "toISOString (e_timestamp entry) = Inr time"
  shows "\<exists>pre post. JsonFormatter_obj entry = Inr (pre @ (''data'', JObject d) # post)
           \<and> ''data'' \<notin> fst ` set pre"
proof (cases "truthy (e_context entry)")
  case True
  with assms show ?thesis
    by (cases "e_error entry")
       (auto simp add: JsonFormatter_obj_def Let_def
          intro: exI[of _ "[(''level'', JString (LOG_LEVEL_NAMES (e_level entry))), (''message'', JString (e_message entry)), (''timestamp'', JString time), (''context'', JString (the (e_context entry)))]"])
next
  case False
  with assms show ?thesis
    by (cases "e_error entry")
       (auto simp add: JsonFormatter_obj_def Let_def
          intro: exI[of _ "[(''level'', JString (LOG_LEVEL_NAMES (e_level entry))), (''message'', JString (e_message entry)), (''timestamp'', JString time)]"])
qed

lemma map_of_split: "k \<notin> fst ` set pre \<Longrightarrow> map_of (pre @ (k, v) # post) k = Some v"
  by (induction pre) auto

text \<open>
  Claim C8. For every entry whose \<^verbatim>\<open>data\<close> is present but empty, \<open>SimpleFormatter\<close> and
  \<open>TimestampedFormatter\<close> produce the output they produce for the same entry without
  \<^verbatim>\<open>data\<close> (no data suffix), while the object that \<open>JsonFormatter\<close> serialises has the
  key \<^verbatim>\<open>data\<close> with the empty object as its value, written \<^verbatim>\<open>"data":{}\<close>; without
  \<^verbatim>\<open>data\<close> that object has no such key.
\<close>

theorem empty_data_formatting:
  "e_data entry = Some [] \<Longrightarrow>
     SimpleFormatter_format entry = SimpleFormatter_format (entry\<lparr>e_data := None\<rparr>)
   \<and> TimestampedFormatter_format entry = TimestampedFormatter_format (entry\<lparr>e_data := None\<rparr>)
   \<and> (\<forall>time. toISOString (e_timestamp entry) = Inr time \<longrightarrow>
        (\<exists>obj. JsonFormatter_obj entry = Inr obj
           \<and> JsonFormatter_format entry = Inr (JSON_stringify obj)
           \<and> map_of obj ''data'' = Some (JObject [])
           \<and> QuoteJSONString ''data'' @ '':{}'' \<in> set (serialize_properties obj))
        \<and> (\<exists>obj'. JsonFormatter_obj (entry\<lparr>e_data := None\<rparr>) = Inr obj'
           \<and> map_of obj' ''data'' = None))"
proof -
  assume d: "e_data entry = Some []"
  have s: "SimpleFormatter_format entry = SimpleFormatter_format (entry\<lparr>e_data := None\<rparr>)"
    using d by (simp add: SimpleFormatter_format_def append_data_def append_error_def
        context_segment_def Object_keys_def)
  have t: "TimestampedFormatter_format entry
             = TimestampedFormatter_format (entry\<lparr>e_data := None\<rparr>)"
    using d by (simp add: TimestampedFormatter_format_def append_data_def append_error_def
        context_segment_def Object_keys_def Let_def split: sum.splits)
  have j: "\<exists>obj. JsonFormatter_obj entry = Inr obj
           \<and> JsonFormatter_format entry = Inr (JSON_stringify obj)
           \<and> map_of obj ''data'' = Some (JObject [])
           \<and> QuoteJSONString ''data'' @ '':{}'' \<in> set (serialize_properties obj)"
    if v: "toISOString (e_timestamp entry) = Inr time" for time
  proof -
    from JsonFormatter_obj_data[OF d v] obtain pre post
      where o: "JsonFormatter_obj entry = Inr (pre @ (''data'', JObject []) # post)"
        and k: "''data'' \<notin> fst ` set pre" by blast
    have "JsonFormatter_format entry = Inr (JSON_stringify (pre @ (''data'', JObject []) # post))"
      using o by (simp add: JsonFormatter_format_def)
    moreover have "QuoteJSONString ''data'' @ '':{}''
                     \<in> set (serialize_properties (pre @ (''data'', JObject []) # post))"
      by (simp add: serialize_properties_append)
    ultimately show ?thesis using o map_of_split[OF k] by blast
  qed
  have n: "\<exists>obj'. JsonFormatter_obj (entry\<lparr>e_data := None\<rparr>) = Inr obj'
           \<and> map_of obj' ''data'' = None"
    if v: "toISOString (e_timestamp entry) = Inr time" for time
    using v by (cases "e_error entry") (simp_all add: JsonFormatter_obj_def Let_def error_object_def)
  from s t j n show ?thesis by blast
qed

theorem empty_data_formatting_witness:
  "e_data entry_empty_data = Some []
   \<and> SimpleFormatter_format entry_empty_data = ''[INFO] Test message''
   \<and> TimestampedFormatter_format entry_empty_data
       = Inr ''[2024-01-15T10:30:00.000Z] [INFO] Test message''
   \<and> (\<exists>obj. JsonFormatter_obj entry_empty_data = Inr obj
         \<and> map_of obj ''data'' = Some (JObject []))"
proof -
  have d: "e_data entry_empty_data = Some []" by (simp add: entry_empty_data_def)
  have v: "toISOString (e_timestamp entry_empty_data) = Inr ''2024-01-15T10:30:00.000Z''"
    by (simp add: entry_empty_data_def)
  have s: "SimpleFormatter_format (entry_empty_data\<lparr>e_data := None\<rparr>) = ''[INFO] Test message''"
    by (simp add: entry_empty_data_def SimpleFormatter_format_def append_data_def
        append_error_def context_segment_def)
  have t: "TimestampedFormatter_format (entry_empty_data\<lparr>e_data := None\<rparr>)
             = Inr ''[2024-01-15T10:30:00.000Z] [INFO] Test message''"
    by (simp add: entry_empty_data_def TimestampedFormatter_format_def append_data_def
        append_error_def context_segment_def)
  from d empty_data_formatting [OF d] v s t show ?thesis by auto
qed

section \<open>Properties of the dispatch loop\<close>

lemma dispatch_steps:
  assumes "P h"
      and "\<And>h'. P h' \<Longrightarrow> prefix xs (arrays h' a)"
      and "\<And>j h'. i \<le> j \<Longrightarrow> j < k \<Longrightarrow> P h' \<Longrightarrow>
             \<exists>h''. transport_write uc (xs ! j) e h' = (None, h'') \<and> P h''"
      and "i \<le> k" and "k \<le> length xs"
  shows "\<exists>h'. P h' \<and> dispatch uc a e i h calls
           = dispatch uc a e k h' (calls @ map (\<lambda>t. (t, e)) (take (k - i) (drop i xs)))"
  using assms
proof (induction "k - i" arbitrary: i h calls)
  case 0
  then have "i = k" by simp
  with "0.prems"(1) show ?case by auto
next
  case (Suc n)
  then have lt: "i < k" by simp
  with Suc.prems(5) have ix: "i < length xs" by simp
  from Suc.prems(2)[OF Suc.prems(1)] obtain zs where ar: "arrays h a = xs @ zs"
    by (auto simp add: prefix_def)
  from ix ar have len: "\<not> length (arrays h a) \<le> i" and el: "arrays h a ! i = xs ! i"
    by (simp_all add: nth_append)
  from Suc.prems(3)[OF le_refl lt Suc.prems(1)] obtain h1
    where w: "transport_write uc (xs ! i) e h = (None, h1)" and p1: "P h1" by blast
  have one: "dispatch uc a e i h calls = dispatch uc a e (i + 1) h1 (calls @ [(xs ! i, e)])"
    using len el w by (subst dispatch.simps) simp
  have "n = k - (i + 1)" using Suc.hyps(2) by simp
  moreover have "\<And>j h'. i + 1 \<le> j \<Longrightarrow> j < k \<Longrightarrow> P h' \<Longrightarrow>
             \<exists>h''. transport_write uc (xs ! j) e h' = (None, h'') \<and> P h''"
    using Suc.prems(3) by simp
  moreover have "i + 1 \<le> k" using lt by simp
  ultimately obtain h' where p': "P h'"
    and r: "dispatch uc a e (i + 1) h1 (calls @ [(xs ! i, e)])
          = dispatch uc a e k h'
              ((calls @ [(xs ! i, e)]) @ map (\<lambda>t. (t, e)) (take (k - (i + 1)) (drop (i + 1) xs)))"
    using Suc.hyps(1)[of "i + 1" h1 "calls @ [(xs ! i, e)]"] p1 Suc.prems(2) Suc.prems(5)
    by blast
  have "take (k - i) (drop i xs) = xs ! i # take (k - (i + 1)) (drop (i + 1) xs)"
  proof -
    have "k - i = Suc (k - (i + 1))" using lt by simp
    moreover have "drop i xs = xs ! i # drop (i + 1) xs"
      using ix by (simp add: Cons_nth_drop_Suc)
    ultimately show ?thesis by simp
  qed
  with one r p' show ?case by auto
qed


lemma dispatch_steps_store:
  assumes "P h"
      and "\<And>h'. P h' \<Longrightarrow> prefix xs (arrays h' a)"
      and "\<And>j h'. i \<le> j \<Longrightarrow> j < k \<Longrightarrow> P h' \<Longrightarrow>
             \<exists>h''. transport_write uc (xs ! j) e h' = (None, h'') \<and> P h''"
      and "i \<le> k" and "k \<le> length xs"
  shows "P (fold (\<lambda>t s. snd (transport_write uc t e s)) (take (k - i) (drop i xs)) h)
       \<and> dispatch uc a e i h calls
           = dispatch uc a e k
               (fold (\<lambda>t s. snd (transport_write uc t e s)) (take (k - i) (drop i xs)) h)
               (calls @ map (\<lambda>t. (t, e)) (take (k - i) (drop i xs)))"
  using assms
proof (induction "k - i" arbitrary: i h calls)
  case 0
  then have "i = k" by simp
  with "0.prems"(1) show ?case by simp
next
  case (Suc n)
  let ?W = "\<lambda>t s. snd (transport_write uc t e s)"
  from Suc have lt: "i < k" by simp
  with Suc.prems(5) have ix: "i < length xs" by simp
  from Suc.prems(2)[OF Suc.prems(1)] obtain zs where ar: "arrays h a = xs @ zs"
    by (auto simp add: prefix_def)
  from ix ar have len: "\<not> length (arrays h a) \<le> i" and el: "arrays h a ! i = xs ! i"
    by (simp_all add: nth_append)
  from Suc.prems(3)[OF le_refl lt Suc.prems(1)] obtain h1
    where w: "transport_write uc (xs ! i) e h = (None, h1)" and p1: "P h1" by blast
  have h1: "?W (xs ! i) h = h1" using w by simp
  have one: "dispatch uc a e i h calls = dispatch uc a e (i + 1) h1 (calls @ [(xs ! i, e)])"
    using len el w by (subst dispatch.simps) simp
  have n: "n = k - (i + 1)" using Suc.hyps(2) by simp
  have st: "\<And>j h'. i + 1 \<le> j \<Longrightarrow> j < k \<Longrightarrow> P h' \<Longrightarrow>
             \<exists>h''. transport_write uc (xs ! j) e h' = (None, h'') \<and> P h''"
    using Suc.prems(3) by simp
  have le: "i + 1 \<le> k" using lt by simp
  from Suc.hyps(1)[OF n p1 Suc.prems(2) st le Suc.prems(5), of "calls @ [(xs ! i, e)]"]
  have ih: "P (fold ?W (take (k - (i + 1)) (drop (i + 1) xs)) h1)"
    "dispatch uc a e (i + 1) h1 (calls @ [(xs ! i, e)])
       = dispatch uc a e k (fold ?W (take (k - (i + 1)) (drop (i + 1) xs)) h1)
           ((calls @ [(xs ! i, e)]) @ map (\<lambda>t. (t, e)) (take (k - (i + 1)) (drop (i + 1) xs)))"
    by simp_all
  have tk: "take (k - i) (drop i xs) = xs ! i # take (k - (i + 1)) (drop (i + 1) xs)"
  proof -
    have "k - i = Suc (k - (i + 1))" using lt by simp
    moreover have "drop i xs = xs ! i # drop (i + 1) xs"
      using ix by (simp add: Cons_nth_drop_Suc)
    ultimately show ?thesis by simp
  qed
  show ?case using one ih h1 by (simp add: tk)
qed

text \<open>
  Claim C1 as stated (for every logger and call, an accepted call writes to every
  transport of the list) fails: the list is \<^verbatim>\<open>[self, memory]\<close>, the \<^verbatim>\<open>write\<close> of \<^verbatim>\<open>self\<close>
  removes \<^verbatim>\<open>self\<close> from the list, and the accepted call returns normally after that one
  \<^verbatim>\<open>write\<close>, with the memory transport never written.
\<close>

theorem log_fan_out_counterexample:
  "level_num INFO \<le> level_num (l_level (loggers heap_remover 0))
   \<and> arrays heap_remover (l_transports (loggers heap_remover 0)) = [0, Suc 0]
   \<and> log removing_code 0 INFO ''m'' None (ValidDate ''t'') heap_remover \<noteq> None
   \<and> fst (the (log removing_code 0 INFO ''m'' None (ValidDate ''t'') heap_remover)) = None
   \<and> map fst (snd (snd (the (log removing_code 0 INFO ''m'' None (ValidDate ''t'')
                              heap_remover)))) = [0]
   \<and> mem_entries (fst (snd (the (log removing_code 0 INFO ''m'' None (ValidDate ''t'')
                                  heap_remover)))) (Suc 0) = []"
proof -
  have hs: "t_class heap_remover 0 = CustomTransport"
    "arrays heap_remover 0 = [0, Suc 0]"
    "t_name heap_remover 0 = ''self''"
    "mem_entries heap_remover (Suc 0) = []"
    "loggers heap_remover 0 =
       \<lparr>l_level = INFO, l_context = None, l_transports = 0, l_formatter = SimpleFormatter\<rparr>"
    by (simp_all add: heap_remover_def MemoryTransport_new_def new_transport_def
          new_array_def Logger_new_def empty_heap_def Let_def)
  let ?e = "\<lparr>e_level = INFO, e_message = ''m'', e_context = None,
             e_timestamp = ValidDate ''t'', e_data = None, e_error = None\<rparr>"
  let ?h1 = "heap_remover\<lparr>arrays := (arrays heap_remover)(0 := [Suc 0])\<rparr>"
  have e: "build_entry \<lparr>l_level = INFO, l_context = None, l_transports = 0,
                          l_formatter = SimpleFormatter\<rparr> INFO ''m'' None (ValidDate ''t'') = ?e"
    by (simp add: build_entry_def)
  have r: "removeTransport 0 ''self'' heap_remover = (True, ?h1)"
    by (simp add: removeTransport_def hs findIndex_def Array_splice_def Let_def)
  have w: "transport_write removing_code 0 ?e heap_remover = (None, ?h1)"
    by (simp add: transport_write_def hs removing_code_def r)
  have d1: "dispatch removing_code 0 ?e (Suc 0) ?h1 [(0, ?e)] = Some (None, ?h1, [(0, ?e)])"
    by (subst dispatch.simps) simp
  have "dispatch removing_code 0 ?e 0 heap_remover [] = Some (None, ?h1, [(0, ?e)])"
    by (subst dispatch.simps) (simp add: hs w d1)
  then have "log removing_code 0 INFO ''m'' None (ValidDate ''t'') heap_remover
               = Some (None, ?h1, [(0, ?e)])"
    by (simp add: log_def hs e)
  then show ?thesis by (simp add: hs)
qed

text \<open>
  Claim C1, amended. A call \<^verbatim>\<open>log(level, message, options)\<close> whose \<open>level\<close> is above the
  logger's threshold (numerically) returns at once: no entry, no \<^verbatim>\<open>write\<close>, the store
  untouched. A call whose \<open>level\<close> is at most the threshold builds the entry and runs the
  loop over the logger's list; when every \<^verbatim>\<open>write\<close> returns normally and leaves the list
  as it is (\<open>P\<close> is what the transports preserve), the loop calls \<^verbatim>\<open>write\<close> with that entry
  on every transport of the list, in list order, each on the store left by the one
  before, and the call returns normally with the store these writes made.
\<close>

theorem log_level_filter:
  assumes "P h"
      and "\<And>h'. P h' \<Longrightarrow> arrays h' (l_transports (loggers h this)) = ts"
      and "\<And>t h'. t \<in> set ts \<Longrightarrow> P h' \<Longrightarrow>
             \<exists>h''. transport_write uc t (build_entry (loggers h this) level message options now) h'
                     = (None, h'') \<and> P h''"
  shows "(level_num level \<le> level_num (l_level (loggers h this)) \<longrightarrow>
            log uc this level message options now h
              = Some (None,
                  fold (\<lambda>t s. snd (transport_write uc t
                          (build_entry (loggers h this) level message options now) s)) ts h,
                  map (\<lambda>t. (t, build_entry (loggers h this) level message options now)) ts))
       \<and> (level_num level > level_num (l_level (loggers h this)) \<longrightarrow>
            log uc this level message options now h = Some (None, h, []))"
proof -
  let ?a = "l_transports (loggers h this)"
  let ?e = "build_entry (loggers h this) level message options now"
  let ?W = "\<lambda>t s. snd (transport_write uc t ?e s)"
  have pre: "\<And>h'. P h' \<Longrightarrow> prefix ts (arrays h' ?a)" using assms(2) by simp
  have st: "\<And>j h'. 0 \<le> j \<Longrightarrow> j < length ts \<Longrightarrow> P h' \<Longrightarrow>
             \<exists>h''. transport_write uc (ts ! j) ?e h' = (None, h'') \<and> P h''"
    using assms(3) by simp
  from dispatch_steps_store[of P h ts ?a 0 "length ts" uc ?e "[]", OF assms(1) pre st]
  have p: "P (fold ?W ts h)"
    and d: "dispatch uc ?a ?e 0 h [] = dispatch uc ?a ?e (length ts) (fold ?W ts h)
              (map (\<lambda>t. (t, ?e)) ts)"
    by simp_all
  have "dispatch uc ?a ?e (length ts) (fold ?W ts h) (map (\<lambda>t. (t, ?e)) ts)
          = Some (None, fold ?W ts h, map (\<lambda>t. (t, ?e)) ts)"
    using assms(2)[OF p] by (subst dispatch.simps) simp
  with d show ?thesis by (simp add: log_def)
qed

lemma heap_memory_pair_simps:
  "next_logger heap_memory_pair = Suc 0"
  "t_class heap_memory_pair 0 = MemoryTransport"
  "t_class heap_memory_pair (Suc 0) = MemoryTransport"
  "arrays heap_memory_pair 0 = [0, Suc 0]"
  "loggers heap_memory_pair 0 =
     \<lparr>l_level = INFO, l_context = Some ''App'', l_transports = 0, l_formatter = SimpleFormatter\<rparr>"
  by (simp_all add: heap_memory_pair_def MemoryTransport_new_def new_transport_def
        new_array_def Logger_new_def empty_heap_def Let_def)

lemma heap_memory_pair_entries:
  "mem_entries heap_memory_pair 0 = []"
  "mem_entries heap_memory_pair (Suc 0) = []"
  by (simp_all add: heap_memory_pair_def MemoryTransport_new_def new_transport_def
        new_array_def Logger_new_def empty_heap_def Let_def)

theorem log_level_filter_witness:
  "(\<exists>h'. log no_user_code 0 WARN ''m'' None (ValidDate ''t'') heap_memory_pair
           = Some (None, h', [(0, (entry_m (Some ''App''))\<lparr>e_level := WARN\<rparr>),
                              (Suc 0, (entry_m (Some ''App''))\<lparr>e_level := WARN\<rparr>)])
         \<and> mem_entries h' 0 = [(entry_m (Some ''App''))\<lparr>e_level := WARN\<rparr>]
         \<and> mem_entries h' (Suc 0) = [(entry_m (Some ''App''))\<lparr>e_level := WARN\<rparr>])
   \<and> log no_user_code 0 DEBUG ''m'' None (ValidDate ''t'') heap_memory_pair
       = Some (None, heap_memory_pair, [])"
proof -
  have inv: "memory_pair_inv heap_memory_pair"
    by (simp add: memory_pair_inv_def heap_memory_pair_simps)
  have ar: "\<And>h'. memory_pair_inv h' \<Longrightarrow>
              arrays h' (l_transports (loggers heap_memory_pair 0)) = [0, Suc 0]"
    by (simp add: memory_pair_inv_def heap_memory_pair_simps)
  have st: "\<And>t h' e. t \<in> set [0, Suc 0] \<Longrightarrow> memory_pair_inv h' \<Longrightarrow>
              \<exists>h''. transport_write no_user_code t e h' = (None, h'') \<and> memory_pair_inv h''"
    by (auto simp add: memory_pair_inv_def transport_write_def MemoryTransport_write_def)
  have e: "build_entry \<lparr>l_level = INFO, l_context = Some ''App'', l_transports = 0,
                          l_formatter = SimpleFormatter\<rparr> WARN ''m'' None (ValidDate ''t'')
             = (entry_m (Some ''App''))\<lparr>e_level := WARN\<rparr>"
    by (simp add: build_entry_def entry_m_def)
  let ?e = "(entry_m (Some ''App''))\<lparr>e_level := WARN\<rparr>"
  let ?h' = "fold (\<lambda>t s. snd (transport_write no_user_code t ?e s)) [0, Suc 0] heap_memory_pair"
  have m: "mem_entries ?h' 0 = [?e]" "mem_entries ?h' (Suc 0) = [?e]"
    by (simp_all add: transport_write_def MemoryTransport_write_def heap_memory_pair_simps
          heap_memory_pair_entries)
  from log_level_filter [of memory_pair_inv heap_memory_pair 0 "[0, Suc 0]" no_user_code
         WARN "''m''" None "ValidDate ''t''", OF inv ar st]
  have 1: "log no_user_code 0 WARN ''m'' None (ValidDate ''t'') heap_memory_pair
             = Some (None, ?h', [(0, ?e), (Suc 0, ?e)])"
    by (simp add: e heap_memory_pair_simps)
  from log_level_filter [of memory_pair_inv heap_memory_pair 0 "[0, Suc 0]" no_user_code
         DEBUG "''m''" None "ValidDate ''t''", OF inv ar st]
  have 2: "log no_user_code 0 DEBUG ''m'' None (ValidDate ''t'') heap_memory_pair
             = Some (None, heap_memory_pair, [])"
    by (simp add: heap_memory_pair_simps)
  from 1 m 2 show ?thesis by blast
qed






lemma heap_adder_simps:
  "t_class heap_adder 0 = CustomTransport"
  "t_class heap_adder (Suc 0) = MemoryTransport"
  "arrays heap_adder 0 = [0]"
  "loggers heap_adder 0 =
     \<lparr>l_level = INFO, l_context = None, l_transports = 0, l_formatter = SimpleFormatter\<rparr>"
  by (simp_all add: heap_adder_def MemoryTransport_new_def new_transport_def
        new_array_def Logger_new_def empty_heap_def Let_def)

lemma build_entry_m:
  "build_entry \<lparr>l_level = INFO, l_context = c, l_transports = a, l_formatter = f\<rparr>
     INFO ''m'' None (ValidDate ''t'') = entry_m c"
  by (cases c) (simp_all add: build_entry_def entry_m_def)

lemma log_heap_adder:
  "\<exists>h'. log adding_code 0 INFO ''m'' None (ValidDate ''t'') heap_adder
     = Some (None, h', [(0, entry_m None), (Suc 0, entry_m None)])"
proof -
  let ?h1 = "addTransport 0 (Suc 0) heap_adder"
  have w0: "transport_write adding_code 0 (entry_m None) heap_adder = (None, ?h1)"
    by (simp add: transport_write_def heap_adder_simps adding_code_def)
  have a1: "arrays ?h1 0 = [0, Suc 0]" and c1: "t_class ?h1 (Suc 0) = MemoryTransport"
    by (simp_all add: addTransport_def heap_adder_simps)
  obtain h2 where w1: "transport_write adding_code (Suc 0) (entry_m None) ?h1 = (None, h2)"
    and a2: "arrays h2 0 = [0, Suc 0]"
    by (simp add: transport_write_def c1 MemoryTransport_write_def a1)
  have d2: "dispatch adding_code 0 (entry_m None) (Suc (Suc 0)) h2 [(0, entry_m None), (Suc 0, entry_m None)]
          = Some (None, h2, [(0, entry_m None), (Suc 0, entry_m None)])"
    by (subst dispatch.simps) (simp add: a2)
  have d1: "dispatch adding_code 0 (entry_m None) (Suc 0) ?h1 [(0, entry_m None)]
          = Some (None, h2, [(0, entry_m None), (Suc 0, entry_m None)])"
    by (subst dispatch.simps) (simp add: a1 w1 d2)
  have "dispatch adding_code 0 (entry_m None) 0 heap_adder []
          = Some (None, h2, [(0, entry_m None), (Suc 0, entry_m None)])"
    by (subst dispatch.simps) (simp add: heap_adder_simps w0 d1)
  then show ?thesis by (simp add: log_def heap_adder_simps build_entry_m)
qed

text \<open>
  Claim C3 as stated (the transports written are those in the list when dispatch begins,
  whatever a \<^verbatim>\<open>write\<close> adds or removes meanwhile) fails: the list is \<^verbatim>\<open>[adder]\<close> when
  the accepted call begins, the \<^verbatim>\<open>write\<close> of \<^verbatim>\<open>adder\<close> calls \<^verbatim>\<open>addTransport\<close>, and the
  transport it adds is written by the same call.
\<close>

theorem dispatch_snapshot_counterexample:
  "level_num INFO \<le> level_num (l_level (loggers heap_adder 0))
   \<and> arrays heap_adder (l_transports (loggers heap_adder 0)) = [0]
   \<and> log adding_code 0 INFO ''m'' None (ValidDate ''t'') heap_adder \<noteq> None
   \<and> map fst (snd (snd (the (log adding_code 0 INFO ''m'' None (ValidDate ''t'')
                              heap_adder)))) = [0, Suc 0]"
proof -
  from log_heap_adder obtain h' where
    "log adding_code 0 INFO ''m'' None (ValidDate ''t'') heap_adder
       = Some (None, h', [(0, entry_m None), (Suc 0, entry_m None)])" by blast
  then show ?thesis by (simp add: heap_adder_simps)
qed

text \<open>
  Claim C3, amended. The loop reads the logger's array itself, not a copy. For every
  accepted call in which the transports of the list at the start return normally and
  keep that list as the initial part of the array (they may append), and the appended
  transports return normally and leave the array alone, the transports written are, in
  order, those of the array as it stands when the call ends: the list at the start
  followed by the transports \<open>added\<close> during the call. They are the list at the start
  exactly when nothing was appended.
\<close>

theorem dispatch_live_list:
  assumes "P h"
      and "arrays h (l_transports (loggers h this)) = ts"
      and "\<And>h'. P h' \<Longrightarrow> prefix ts (arrays h' (l_transports (loggers h this)))"
      and "\<And>t h'. t \<in> set ts \<Longrightarrow> P h' \<Longrightarrow>
             \<exists>h''. transport_write uc t
                     (build_entry (loggers h this) level message options now) h'
                   = (None, h'') \<and> P h''"
      and "\<And>j h'. P h' \<Longrightarrow> length ts \<le> j
             \<Longrightarrow> j < length (arrays h' (l_transports (loggers h this))) \<Longrightarrow>
             \<exists>h''. transport_write uc (arrays h' (l_transports (loggers h this)) ! j)
                     (build_entry (loggers h this) level message options now) h'
                   = (None, h'') \<and> P h''
                   \<and> arrays h'' (l_transports (loggers h this))
                       = arrays h' (l_transports (loggers h this))"
      and "level_num level \<le> level_num (l_level (loggers h this))"
  shows "\<exists>h' added. log uc this level message options now h
           = Some (None, h',
               map (\<lambda>t. (t, build_entry (loggers h this) level message options now))
                 (ts @ added))
         \<and> arrays h' (l_transports (loggers h this)) = ts @ added"
proof -
  let ?a = "l_transports (loggers h this)"
  let ?e = "build_entry (loggers h this) level message options now"
  have st1: "\<And>j h'. 0 \<le> j \<Longrightarrow> j < length ts \<Longrightarrow> P h' \<Longrightarrow>
             \<exists>h''. transport_write uc (ts ! j) ?e h' = (None, h'') \<and> P h''"
    using assms(4) by simp
  from dispatch_steps[of P h ts ?a 0 "length ts" uc ?e "[]", OF assms(1) assms(3) st1]
  obtain h1 where p1: "P h1"
    and d1: "dispatch uc ?a ?e 0 h [] = dispatch uc ?a ?e (length ts) h1 (map (\<lambda>t. (t, ?e)) ts)"
    by auto
  define L where "L = arrays h1 ?a"
  from assms(3)[OF p1] obtain added where L: "L = ts @ added"
    by (auto simp add: prefix_def L_def)
  define Q where "Q = (\<lambda>h'. P h' \<and> arrays h' ?a = L)"
  have q1: "Q h1" using p1 by (simp add: Q_def L_def)
  have pre2: "\<And>h'. Q h' \<Longrightarrow> prefix L (arrays h' ?a)" by (simp add: Q_def)
  have st2: "\<And>j h'. length ts \<le> j \<Longrightarrow> j < length L \<Longrightarrow> Q h' \<Longrightarrow>
             \<exists>h''. transport_write uc (L ! j) ?e h' = (None, h'') \<and> Q h''"
  proof -
    fix j h' assume j: "length ts \<le> j" "j < length L" and q: "Q h'"
    from q have p: "P h'" and ar: "arrays h' ?a = L" by (simp_all add: Q_def)
    from assms(5)[OF p j(1)] j(2) ar show
      "\<exists>h''. transport_write uc (L ! j) ?e h' = (None, h'') \<and> Q h''"
      by (auto simp add: Q_def)
  qed
  have le: "length ts \<le> length L" using L by simp
  from dispatch_steps[of Q h1 L ?a "length ts" "length L" uc ?e "map (\<lambda>t. (t, ?e)) ts",
         OF q1 pre2 st2 le]
  obtain h2 where q2: "Q h2"
    and d2: "dispatch uc ?a ?e (length ts) h1 (map (\<lambda>t. (t, ?e)) ts)
           = dispatch uc ?a ?e (length L) h2
               (map (\<lambda>t. (t, ?e)) ts
                @ map (\<lambda>t. (t, ?e)) (take (length L - length ts) (drop (length ts) L)))"
    by auto
  have tr: "map (\<lambda>t. (t, ?e)) ts
              @ map (\<lambda>t. (t, ?e)) (take (length L - length ts) (drop (length ts) L))
            = map (\<lambda>t. (t, ?e)) (ts @ added)"
    using L by simp
  from q2 have a2: "arrays h2 ?a = L" by (simp add: Q_def)
  have "dispatch uc ?a ?e (length L) h2 (map (\<lambda>t. (t, ?e)) (ts @ added))
          = Some (None, h2, map (\<lambda>t. (t, ?e)) (ts @ added))"
    using a2 by (subst dispatch.simps) simp
  with d1 d2 tr a2 L assms(6) show ?thesis by (auto simp add: log_def)
qed

theorem dispatch_live_list_witness:
  "\<exists>h' added. log adding_code 0 INFO ''m'' None (ValidDate ''t'') heap_adder
      = Some (None, h', map (\<lambda>t. (t, entry_m None)) ([0] @ added))
    \<and> arrays h' 0 = [0] @ added"
proof -
  have inv: "adder_inv heap_adder" by (simp add: adder_inv_def heap_adder_simps)
  have ar: "arrays heap_adder (l_transports (loggers heap_adder 0)) = [0]"
    by (simp add: heap_adder_simps)
  have pre: "\<And>h'. adder_inv h' \<Longrightarrow>
               prefix [0] (arrays h' (l_transports (loggers heap_adder 0)))"
    by (auto simp add: adder_inv_def heap_adder_simps)
  have st1: "\<And>t h' e. t \<in> set [0] \<Longrightarrow> adder_inv h' \<Longrightarrow>
               \<exists>h''. transport_write adding_code t e h' = (None, h'') \<and> adder_inv h''"
    by (auto simp add: adder_inv_def transport_write_def adding_code_def addTransport_def)
  have st2: "\<And>j h' e. adder_inv h' \<Longrightarrow> length [0::nat] \<le> j
               \<Longrightarrow> j < length (arrays h' (l_transports (loggers heap_adder 0))) \<Longrightarrow>
               \<exists>h''. transport_write adding_code
                        (arrays h' (l_transports (loggers heap_adder 0)) ! j) e h'
                      = (None, h'') \<and> adder_inv h''
                      \<and> arrays h'' (l_transports (loggers heap_adder 0))
                          = arrays h' (l_transports (loggers heap_adder 0))"
  proof -
    fix j h' e
    assume i: "adder_inv h'" and j: "length [0::nat] \<le> j"
      "j < length (arrays h' (l_transports (loggers heap_adder 0)))"
    from i obtain rest where r: "arrays h' 0 = 0 # rest" "set rest \<subseteq> {Suc 0}"
      by (auto simp add: adder_inv_def)
    from j r have "rest ! (j - 1) \<in> set rest" by (simp add: heap_adder_simps)
    with r j have el: "arrays h' 0 ! j = Suc 0" by (auto simp add: nth_Cons')
    with i r show "\<exists>h''. transport_write adding_code
                        (arrays h' (l_transports (loggers heap_adder 0)) ! j) e h'
                      = (None, h'') \<and> adder_inv h''
                      \<and> arrays h'' (l_transports (loggers heap_adder 0))
                          = arrays h' (l_transports (loggers heap_adder 0))"
      by (simp add: heap_adder_simps adder_inv_def transport_write_def
            MemoryTransport_write_def)
  qed
  have lv: "level_num INFO \<le> level_num (l_level (loggers heap_adder 0))"
    by (simp add: heap_adder_simps)
  from dispatch_live_list [of adder_inv heap_adder 0 "[0]" adding_code
         INFO "''m''" None "ValidDate ''t''", OF inv ar pre st1 st2 lv]
  show ?thesis by (simp add: heap_adder_simps build_entry_m)
qed

section \<open>Properties of the logger's methods\<close>

lemma findIndex_from_none:
  "\<forall>x \<in> set xs. \<not> p x \<Longrightarrow> findIndex_from k p xs = -1"
  by (induction xs arbitrary: k) simp_all

lemma findIndex_from_first:
  "\<forall>x \<in> set pre. \<not> p x \<Longrightarrow> p t \<Longrightarrow>
     findIndex_from k p (pre @ t # post) = k + int (length pre)"
  by (induction pre arbitrary: k) simp_all

lemma splice_one:
  "Array_splice (pre @ t # post) (int (length pre)) (Suc 0) = pre @ post"
  by (simp add: Array_splice_def Let_def)

text \<open>
  Claim C6. \<^verbatim>\<open>removeTransport(name)\<close>: when no transport of the list has that name, the
  result is \<^verbatim>\<open>false\<close> and the store is unchanged; when some transport has it, the list
  splits as \<open>pre @ t # post\<close> with \<open>t\<close> the first transport of that name, the result is
  \<^verbatim>\<open>true\<close>, and the list becomes \<open>pre @ post\<close>: only \<open>t\<close> is removed, and everything
  else, later transports of the same name included, stays in place and in order.
\<close>

theorem removeTransport_first_match:
  "((\<forall>t \<in> set (arrays h (l_transports (loggers h this))). t_name h t \<noteq> name) \<longrightarrow>
       removeTransport this name h = (False, h))
   \<and> ((\<exists>t \<in> set (arrays h (l_transports (loggers h this))). t_name h t = name) \<longrightarrow>
       (\<exists>pre t post.
          arrays h (l_transports (loggers h this)) = pre @ t # post
          \<and> t_name h t = name \<and> (\<forall>u \<in> set pre. t_name h u \<noteq> name)
          \<and> removeTransport this name h
              = (True, h\<lparr>arrays := (arrays h)(l_transports (loggers h this) := pre @ post)\<rparr>)))"
proof (intro conjI impI)
  assume "\<forall>t \<in> set (arrays h (l_transports (loggers h this))). t_name h t \<noteq> name"
  then have "findIndex (\<lambda>t. t_name h t = name) (arrays h (l_transports (loggers h this))) = -1"
    unfolding findIndex_def by (intro findIndex_from_none) simp
  then show "removeTransport this name h = (False, h)"
    by (simp add: removeTransport_def)
next
  assume "\<exists>t \<in> set (arrays h (l_transports (loggers h this))). t_name h t = name"
  then obtain pre t post
    where sp: "arrays h (l_transports (loggers h this)) = pre @ t # post"
      and t: "t_name h t = name" and pre: "\<forall>u \<in> set pre. t_name h u \<noteq> name"
    using split_list_first_prop[of "arrays h (l_transports (loggers h this))"
            "\<lambda>t. t_name h t = name"] by blast
  have ix: "findIndex (\<lambda>t. t_name h t = name) (pre @ t # post) = int (length pre)"
    unfolding findIndex_def using findIndex_from_first[of pre "\<lambda>t. t_name h t = name" t 0 post]
      pre t by simp
  have "removeTransport this name h
          = (True, h\<lparr>arrays := (arrays h)(l_transports (loggers h this) := pre @ post)\<rparr>)"
    by (simp add: removeTransport_def sp ix splice_one)
  with sp t pre show "\<exists>pre t post.
          arrays h (l_transports (loggers h this)) = pre @ t # post
          \<and> t_name h t = name \<and> (\<forall>u \<in> set pre. t_name h u \<noteq> name)
          \<and> removeTransport this name h
              = (True, h\<lparr>arrays := (arrays h)(l_transports (loggers h this) := pre @ post)\<rparr>)"
    by blast
qed

lemma heap_named_simps:
  "arrays heap_named 0 = [0, Suc 0, Suc (Suc 0)]"
  "l_transports (loggers heap_named 0) = 0"
  "t_name heap_named 0 = ''dup''"
  "t_name heap_named (Suc 0) = ''other''"
  "t_name heap_named (Suc (Suc 0)) = ''dup''"
  by (simp_all add: heap_named_def new_transport_def
        new_array_def Logger_new_def empty_heap_def Let_def)

theorem removeTransport_first_match_witness:
  "fst (removeTransport 0 ''dup'' heap_named) = True
   \<and> arrays (snd (removeTransport 0 ''dup'' heap_named)) 0 = [Suc 0, Suc (Suc 0)]
   \<and> removeTransport 0 ''absent'' heap_named = (False, heap_named)"
proof -
  have no: "\<forall>t \<in> set (arrays heap_named (l_transports (loggers heap_named 0))).
              t_name heap_named t \<noteq> ''absent''"
    by (simp add: heap_named_simps)
  have ex: "\<exists>t \<in> set (arrays heap_named (l_transports (loggers heap_named 0))).
              t_name heap_named t = ''dup''"
    by (simp add: heap_named_simps)
  from removeTransport_first_match [of heap_named 0 "''dup''"] ex
  obtain pre t post where sp: "[0, Suc 0, Suc (Suc 0)] = pre @ t # post"
    and pre: "\<forall>u \<in> set pre. t_name heap_named u \<noteq> ''dup''"
    and r: "removeTransport 0 ''dup'' heap_named
              = (True, heap_named\<lparr>arrays := (arrays heap_named)(0 := pre @ post)\<rparr>)"
    by (auto simp add: heap_named_simps)
  have "pre = []"
  proof (cases pre)
    case (Cons u us)
    with sp have "u = 0" by simp
    with Cons pre show ?thesis by (simp add: heap_named_simps)
  qed simp
  with sp have "pre @ post = [Suc 0, Suc (Suc 0)]" by simp
  with r removeTransport_first_match [of heap_named 0 "''absent''"] no
  show ?thesis by simp
qed

lemma child_unfold:
  "child this segment h =
     (next_logger h,
      h\<lparr>loggers := (loggers h)(next_logger h :=
            \<lparr>l_level = l_level (loggers h this),
             l_context = Some (if truthy (l_context (loggers h this))
                               then the (l_context (loggers h this)) @ '':'' @ segment
                               else segment),
             l_transports = l_transports (loggers h this),
             l_formatter = l_formatter (loggers h this)\<rparr>),
         next_logger := Suc (next_logger h)\<rparr>)"
  by (simp add: child_def Logger_new_def Let_def)

lemma heap_empty_context_simps:
  "l_context (loggers heap_empty_context 0) = Some []"
  "next_logger heap_empty_context = Suc 0"
  by (simp_all add: heap_empty_context_def Logger_new_def ConsoleTransport_new_def
        new_transport_def new_array_def empty_heap_def Let_def)

text \<open>
  Claim C5 as stated (the child's context is \<^verbatim>\<open>L.context + ":" + s\<close> whenever \<^verbatim>\<open>L\<close> has a
  context) fails for a logger whose context is the empty string: its child for \<^verbatim>\<open>B\<close> has
  the context \<^verbatim>\<open>B\<close>, not \<^verbatim>\<open>:B\<close>.
\<close>

theorem child_context_counterexample:
  "l_context (loggers heap_empty_context 0) = Some []
   \<and> l_context (loggers (snd (child 0 ''B'' heap_empty_context))
                  (fst (child 0 ''B'' heap_empty_context))) = Some ''B''
   \<and> l_context (loggers (snd (child 0 ''B'' heap_empty_context))
                  (fst (child 0 ''B'' heap_empty_context)))
       \<noteq> Some (the (l_context (loggers heap_empty_context 0)) @ '':'' @ ''B'')"
  by (simp add: child_unfold heap_empty_context_simps)

text \<open>
  Claim C5, amended. For every logger \<^verbatim>\<open>L\<close> and non-empty segment \<^verbatim>\<open>s\<close>, \<^verbatim>\<open>L.child(s)\<close> is a
  new logger object; \<^verbatim>\<open>L\<close> is unchanged; the child has \<^verbatim>\<open>L\<close>'s level and formatter, and
  a later \<^verbatim>\<open>setLevel\<close> on \<^verbatim>\<open>L\<close> does not reach it; its transport list is the array object
  of \<^verbatim>\<open>L\<close>, so a transport added to \<^verbatim>\<open>L\<close> afterwards is in the child's list; its context is
  \<^verbatim>\<open>L.context + ":" + s\<close> when \<^verbatim>\<open>L\<close> has a non-empty context, and \<^verbatim>\<open>s\<close> when \<^verbatim>\<open>L\<close>'s
  context is absent or the empty string.
\<close>

theorem child_logger:
  assumes "this < next_logger h" and "segment \<noteq> []"
  shows "(case child this segment h of (c, h') \<Rightarrow>
            c = next_logger h \<and> c \<noteq> this \<and> next_logger h' = Suc c
          \<and> loggers h' this = loggers h this
          \<and> l_level (loggers h' c) = l_level (loggers h this)
          \<and> l_transports (loggers h' c) = l_transports (loggers h this)
          \<and> l_formatter (loggers h' c) = l_formatter (loggers h this)
          \<and> l_context (loggers h' c)
              = Some (case l_context (loggers h this) of
                        None \<Rightarrow> segment
                      | Some p \<Rightarrow> if p = [] then segment else p @ '':'' @ segment)
          \<and> arrays h' = arrays h
          \<and> (\<forall>t. arrays (addTransport this t h')
                      (l_transports (loggers (addTransport this t h') c))
                    = arrays h (l_transports (loggers h this)) @ [t])
          \<and> (\<forall>lv. l_level (loggers (setLevel this lv h') c) = l_level (loggers h this)))"
  using assms
  by (cases "l_context (loggers h this)")
     (simp_all add: child_unfold addTransport_def setLevel_def Let_def)

theorem child_logger_witness:
  "fst (child 0 ''db'' heap_memory_pair) = Suc 0
   \<and> l_context (loggers (snd (child 0 ''db'' heap_memory_pair)) (Suc 0)) = Some ''App:db''
   \<and> l_level (loggers (snd (child 0 ''db'' heap_memory_pair)) (Suc 0)) = INFO
   \<and> arrays (addTransport 0 7 (snd (child 0 ''db'' heap_memory_pair)))
        (l_transports (loggers (addTransport 0 7 (snd (child 0 ''db'' heap_memory_pair)))
                         (Suc 0)))
       = [0, Suc 0, 7]"
proof -
  have a: "0 < next_logger heap_memory_pair" by (simp add: heap_memory_pair_simps)
  have s: "''db'' \<noteq> []" by simp
  from child_logger [of 0 heap_memory_pair "''db''", OF a s]
  show ?thesis by (simp add: heap_memory_pair_simps split: prod.splits)
qed


lemma build_entry_fields:
  "e_context (build_entry L level message options now)
     = (case (case options of None \<Rightarrow> None | Some opts \<Rightarrow> opt_context opts) of
          Some c \<Rightarrow> Some c | None \<Rightarrow> l_context L)"
  "e_data (build_entry L level message options now)
     = (case options of None \<Rightarrow> None | Some opts \<Rightarrow> opt_data opts)"
  "e_error (build_entry L level message options now)
     = (case options of None \<Rightarrow> None | Some opts \<Rightarrow> opt_error opts)"
  "e_level (build_entry L level message options now) = level"
  "e_message (build_entry L level message options now) = message"
  "e_timestamp (build_entry L level message options now) = now"
  by (simp_all add: build_entry_def Let_def split: option.splits)



section \<open>Properties of CallbackTransport\<close>

text \<open>
  Claim C9 as stated (the \<^verbatim>\<open>CallbackTransport\<close> constructor signals an error when the
  options lack a callback) fails: for the options \<^verbatim>\<open>{}\<close> the constructor returns a
  transport, whose \<^verbatim>\<open>callback\<close> field holds no function.
\<close>

theorem CallbackTransport_constructor_counterexample:
  "cb_callback options_without_callback = None
   \<and> \<not> isl (CallbackTransport_new (Some options_without_callback) empty_heap)
   \<and> fst (projr (CallbackTransport_new (Some options_without_callback) empty_heap)) = 0
   \<and> t_class (snd (projr (CallbackTransport_new (Some options_without_callback) empty_heap))) 0
       = CallbackTransport None SimpleFormatter"
  by (simp add: CallbackTransport_new_def options_without_callback_def new_transport_def
        empty_heap_def Let_def)

text \<open>
  Claim C9, amended. The constructor does not check the callback (the type
  \<^verbatim>\<open>CallbackTransportOptions\<close> is what requires it, at compile time). Given an options
  value that has properties but no callback function, it returns a transport, and the
  failure comes with each later \<^verbatim>\<open>write\<close>, which throws; with the default formatter what
  it throws is the \<^verbatim>\<open>TypeError\<close> of calling a non-function. Construction itself fails,
  with a \<^verbatim>\<open>TypeError\<close>, only when the options value is \<^verbatim>\<open>undefined\<close> or \<^verbatim>\<open>null\<close>, whose
  property \<^verbatim>\<open>callback\<close> cannot be read.
\<close>

theorem CallbackTransport_no_validation:
  "CallbackTransport_new None h = Inl TypeError
   \<and> (cb_callback opts = None \<longrightarrow>
        (\<exists>t h'. CallbackTransport_new (Some opts) h = Inr (t, h')
           \<and> t_class h' t = CallbackTransport None
                 (case cb_formatter opts of Some f \<Rightarrow> f | None \<Rightarrow> SimpleFormatter)
           \<and> (\<forall>uc entry h''. t_class h'' t = t_class h' t \<longrightarrow>
                 (\<exists>x. transport_write uc t entry h'' = (Some x, h''))
                 \<and> (cb_formatter opts = None \<longrightarrow>
                      transport_write uc t entry h'' = (Some TypeError, h'')))))"
  by (auto simp add: CallbackTransport_new_def new_transport_def Let_def transport_write_def
        CallbackTransport_write_def split: sum.splits option.splits)

theorem CallbackTransport_no_validation_witness:
  "CallbackTransport_new None empty_heap = Inl TypeError
   \<and> (\<exists>t h'. CallbackTransport_new (Some options_without_callback) empty_heap = Inr (t, h')
         \<and> transport_write no_user_code t entry_empty_data h' = (Some TypeError, h'))"
proof -
  have c: "cb_callback options_without_callback = None"
    and f: "cb_formatter options_without_callback = None"
    by (simp_all add: options_without_callback_def)
  from CallbackTransport_no_validation [of empty_heap options_without_callback] c f
  show ?thesis by blast
qed

section \<open>The empty child segment\<close>

text \<open>
  Claim C10. For every logger without a context, \<^verbatim>\<open>child("")\<close> is a logger whose context
  is the empty string; an entry logged through it without options carries the context
  \<^verbatim>\<open>""\<close>; and each of the three formatters renders an entry with the context \<^verbatim>\<open>""\<close> as
  it renders the same entry without context: the text formatters write no context
  segment, and the object serialised by \<open>JsonFormatter\<close> has no key \<^verbatim>\<open>context\<close>.
\<close>

theorem child_empty_segment:
  "l_context (loggers h this) = None \<Longrightarrow>
     (case child this [] h of (c, h') \<Rightarrow>
        l_context (loggers h' c) = Some []
      \<and> (\<forall>uc level message now.
           e_context (build_entry (loggers h' c) level message None now) = Some []
         \<and> log uc c level message None now h'
             = (if level_num level > level_num (l_level (loggers h' c)) then Some (None, h', [])
                else dispatch uc (l_transports (loggers h' c))
                       (build_entry (loggers h' c) level message None now) 0 h' [])))
   \<and> (\<forall>entry. e_context entry = Some [] \<longrightarrow>
          context_segment entry = []
        \<and> SimpleFormatter_format entry = SimpleFormatter_format (entry\<lparr>e_context := None\<rparr>)
        \<and> TimestampedFormatter_format entry
            = TimestampedFormatter_format (entry\<lparr>e_context := None\<rparr>)
        \<and> JsonFormatter_format entry = JsonFormatter_format (entry\<lparr>e_context := None\<rparr>)
        \<and> (\<forall>obj. JsonFormatter_obj entry = Inr obj \<longrightarrow> map_of obj ''context'' = None))"
proof -
  assume n: "l_context (loggers h this) = None"
  have c: "case child this [] h of (c, h') \<Rightarrow>
        l_context (loggers h' c) = Some []
      \<and> (\<forall>uc level message now.
           e_context (build_entry (loggers h' c) level message None now) = Some []
         \<and> log uc c level message None now h'
             = (if level_num level > level_num (l_level (loggers h' c)) then Some (None, h', [])
                else dispatch uc (l_transports (loggers h' c))
                       (build_entry (loggers h' c) level message None now) 0 h' []))"
    using n by (simp add: child_unfold build_entry_fields log_def)
  have f: "context_segment entry = []
        \<and> SimpleFormatter_format entry = SimpleFormatter_format (entry\<lparr>e_context := None\<rparr>)
        \<and> TimestampedFormatter_format entry
            = TimestampedFormatter_format (entry\<lparr>e_context := None\<rparr>)
        \<and> JsonFormatter_format entry = JsonFormatter_format (entry\<lparr>e_context := None\<rparr>)
        \<and> (\<forall>obj. JsonFormatter_obj entry = Inr obj \<longrightarrow> map_of obj ''context'' = None)"
    if e: "e_context entry = Some []" for entry :: LogEntry
  proof -
    have 1: "context_segment entry = []" using e by (simp add: context_segment_def)
    have 2: "SimpleFormatter_format entry
               = SimpleFormatter_format (entry\<lparr>e_context := None\<rparr>)"
      using e by (simp add: SimpleFormatter_format_def context_segment_def append_data_def
          append_error_def)
    have 3: "TimestampedFormatter_format entry
               = TimestampedFormatter_format (entry\<lparr>e_context := None\<rparr>)"
      using e by (simp add: TimestampedFormatter_format_def context_segment_def append_data_def
          append_error_def Let_def split: sum.splits)
    have o: "JsonFormatter_obj entry = JsonFormatter_obj (entry\<lparr>e_context := None\<rparr>)"
      using e by (simp add: JsonFormatter_obj_def Let_def split: sum.splits)
    then have 4: "JsonFormatter_format entry
                    = JsonFormatter_format (entry\<lparr>e_context := None\<rparr>)"
      by (simp add: JsonFormatter_format_def)
    have 5: "map_of obj ''context'' = None" if "JsonFormatter_obj entry = Inr obj" for obj
      using that e by (cases "e_data entry"; cases "e_error entry")
        (auto simp add: JsonFormatter_obj_def Let_def split: sum.splits)
    from 1 2 3 4 5 show ?thesis by blast
  qed
  from c f show ?thesis by blast
qed

lemma heap_no_context_simps:
  "l_context (loggers heap_no_context 0) = None"
  "l_level (loggers heap_no_context 0) = INFO"
  "next_logger heap_no_context = Suc 0"
  by (simp_all add: heap_no_context_def Logger_new_def ConsoleTransport_new_def
        new_transport_def new_array_def empty_heap_def Let_def)

theorem child_empty_segment_witness:
  "l_context (loggers (snd (child 0 [] heap_no_context)) (fst (child 0 [] heap_no_context)))
     = Some []
   \<and> SimpleFormatter_format (entry_m (Some [])) = ''[INFO] m''
   \<and> TimestampedFormatter_format (entry_m (Some [])) = Inr ''[t] [INFO] m''
   \<and> JsonFormatter_format (entry_m (Some [])) = JsonFormatter_format (entry_m None)"
proof -
  have n: "l_context (loggers heap_no_context 0) = None" by (simp add: heap_no_context_simps)
  have e: "e_context (entry_m (Some [])) = Some []" by (simp add: entry_m_def)
  have u: "(entry_m (Some []))\<lparr>e_context := None\<rparr> = entry_m None" by (simp add: entry_m_def)
  have s: "SimpleFormatter_format (entry_m None) = ''[INFO] m''"
    by (simp add: entry_m_def SimpleFormatter_format_def context_segment_def append_data_def
          append_error_def)
  have t: "TimestampedFormatter_format (entry_m None) = Inr ''[t] [INFO] m''"
    by (simp add: entry_m_def TimestampedFormatter_format_def context_segment_def
          append_data_def append_error_def)
  from child_empty_segment [of heap_no_context 0, OF n] e u s t
  show ?thesis by (auto split: prod.splits)
qed

end
